theory Spec2Isabelle
  imports Main "HOL-Library.Word" "HOL-Library.AList"
begin

section \<open>Tablet and rowset metadata (server/metadata.h)\<close>

text \<open>
  The header \<^verbatim>\<open>server/metadata.h\<close> declares \<^verbatim>\<open>TabletMetadata\<close> and defines
  \<^verbatim>\<open>RowSetMetadata\<close> with its inline member functions. The inline functions are
  embedded below from their bodies. The types and functions the header only uses
  (\<^verbatim>\<open>Status\<close>, \<^verbatim>\<open>BlockId\<close>, \<^verbatim>\<open>FsManager\<close>, the protobuf descriptors) and the
  member functions it only declares are modelled from the specification; each such
  definition says so.
\<close>

subsection \<open>Results of a call\<close>

text \<open>
  Modelled from the spec: \<^verbatim>\<open>Status\<close> (util/status.h is not among the sources). The
  error taxonomy of the specification: I/O error, corruption, not found.
\<close>

datatype Status = OK | NotFound | Corruption | IOError

text \<open>
  What ends the program instead of returning: a failed \<^verbatim>\<open>CHECK\<close>/\<^verbatim>\<open>DCHECK\<close>, an
  unguarded \<^verbatim>\<open>std::vector\<close> subscript out of range, and the use of a pointer that
  refers to no object. A call returns \<open>Inl\<close> of one of these, or \<open>Inr\<close> of what the
  C++ call returns together with the updated state.
\<close>

datatype fatal = CheckFailed | OutOfRange | InvalidPointer

subsection \<open>Block identifiers and the block store\<close>

text \<open>
  Modelled from the spec: \<^verbatim>\<open>BlockId\<close> (server/fsmanager.h is not among the sources).
  An opaque, store-assigned identifier; the default-constructed value is the null
  identifier, which \<^verbatim>\<open>IsNull\<close> recognises.
\<close>

datatype BlockId = NullBlockId | Block nat

definition IsNull :: "BlockId \<Rightarrow> bool" where
  "IsNull b = (b = NullBlockId)"

text \<open>
  Modelled from the spec: the handles \<^verbatim>\<open>WritableFile\<close> and \<^verbatim>\<open>RandomAccessFile\<close>
  (util/env.h is not among the sources). A writer and a reader, each for one block.
\<close>

datatype WritableFile = WritableFile BlockId
datatype RandomAccessFile = RandomAccessFile BlockId

subsection \<open>The persisted descriptors\<close>

text \<open>
  Modelled from the spec: the descriptors of server/metadata.pb.h (not among the
  sources). A rowset descriptor holds the rowset id, the bloom block id or absent, the
  ad-hoc index block id or absent, the ordered column block ids and the ordered
  (delta id, block id) pairs; a tablet descriptor holds the tablet id, the two key
  bounds and the ordered rowset descriptors. The master block names the place where
  the superblock of a tablet is anchored.
\<close>

record RowSetDataPB =
  pb_id :: "32 word"
  pb_bloom_block :: "BlockId option"
  pb_adhoc_index_block :: "BlockId option"
  pb_column_blocks :: "BlockId list"
  pb_delta_blocks :: "(32 word \<times> BlockId) list"

text \<open>
  Modelled from the spec: \<^verbatim>\<open>TabletSuperBlockPB\<close> (server/metadata.pb.h is not among
  the sources), the tablet descriptor described above.
\<close>

record TabletSuperBlockPB =
  pb_oid :: string
  pb_start_key :: string
  pb_end_key :: string
  pb_rowsets :: "RowSetDataPB list"

text \<open>
  Modelled from the spec: \<^verbatim>\<open>TabletMasterBlockPB\<close> (server/metadata.pb.h is not among
  the sources), the bootstrap descriptor that names the anchor of the superblock.
\<close>

datatype TabletMasterBlockPB = TabletMasterBlockPB string

text \<open>
  Modelled from the spec: \<^verbatim>\<open>FsManager\<close> (server/fsmanager.h is not among the
  sources), the durable block store. It issues a fresh identifier for every block it
  creates, opens only blocks it knows, and keeps one superblock per master block; a
  superblock write either replaces the stored descriptor or fails and leaves it as it
  was. \<open>io_faults\<close> is the script of the I/O outcomes to come: every I/O call takes
  the head (\<open>True\<close>: this call fails with an I/O error; an empty script: no failure).
\<close>

record FsManager =
  next_block :: nat
  blocks :: "(BlockId \<times> 64 word) list"
  superblocks :: "(TabletMasterBlockPB \<times> TabletSuperBlockPB) list"
  io_faults :: "bool list"

text \<open>
  Modelled from the spec: the outcome of the next I/O call of the store (no source
  function; the specification only says that an I/O call may fail). The head of the
  script is taken; an empty script means no failure.
\<close>

definition take_fault :: "FsManager \<Rightarrow> bool \<times> FsManager" where
  "take_fault fs =
     (case io_faults fs of
        [] \<Rightarrow> (False, fs)
      | f # rest \<Rightarrow> (f, fs\<lparr>io_faults := rest\<rparr>))"

text \<open>
  Modelled from the spec: \<^verbatim>\<open>FsManager::CreateNewBlock\<close> (not among the sources). It
  allocates a fresh block and returns a writer and the identifier; when the call fails
  nothing is returned.
\<close>

definition CreateNewBlock :: "FsManager \<Rightarrow> (Status + WritableFile \<times> BlockId) \<times> FsManager" where
  "CreateNewBlock fs =
     (case take_fault fs of
        (True, fs1) \<Rightarrow> (Inl IOError, fs1)
      | (False, fs1) \<Rightarrow>
          (let b = Block (next_block fs1)
           in (Inr (WritableFile b, b),
               fs1\<lparr>next_block := Suc (next_block fs1), blocks := blocks fs1 @ [(b, 0)]\<rparr>)))"

text \<open>
  Modelled from the spec: \<^verbatim>\<open>FsManager::OpenBlock\<close> (not among the sources). It opens
  an existing block for reading and fails with not found when the store does not know
  the identifier, as it does not know the null one.
\<close>

definition OpenBlock :: "FsManager \<Rightarrow> BlockId \<Rightarrow> (Status + RandomAccessFile) \<times> FsManager" where
  "OpenBlock fs block_id =
     (case take_fault fs of
        (True, fs1) \<Rightarrow> (Inl IOError, fs1)
      | (False, fs1) \<Rightarrow>
          (case map_of (blocks fs1) block_id of
             None \<Rightarrow> (Inl NotFound, fs1)
           | Some sz \<Rightarrow> (Inr (RandomAccessFile block_id), fs1)))"

text \<open>
  Modelled from the spec: \<^verbatim>\<open>RandomAccessFile::Size\<close> (util/env.h is not among the
  sources): the size of the block behind the reader, a \<^verbatim>\<open>uint64_t\<close>.
\<close>

definition Size :: "FsManager \<Rightarrow> RandomAccessFile \<Rightarrow> (Status + 64 word) \<times> FsManager" where
  "Size fs reader =
     (case reader of RandomAccessFile b \<Rightarrow>
        (case take_fault fs of
           (True, fs1) \<Rightarrow> (Inl IOError, fs1)
         | (False, fs1) \<Rightarrow>
             (case map_of (blocks fs1) b of
                None \<Rightarrow> (Inl NotFound, fs1)
              | Some sz \<Rightarrow> (Inr sz, fs1))))"

text \<open>
  Modelled from the spec: \<^verbatim>\<open>FsManager::BlockExists\<close> (not among the sources), the
  existence probe.
\<close>

definition BlockExists :: "FsManager \<Rightarrow> BlockId \<Rightarrow> bool" where
  "BlockExists fs block_id = (map_of (blocks fs) block_id \<noteq> None)"

subsection \<open>RowSetMetadata\<close>

text \<open>
  The fields of \<^verbatim>\<open>class RowSetMetadata\<close>. \<open>tablet_metadata\<close> is the back pointer to
  the owning tablet (an address, see the object store below); \<open>rs_id\<close> is the field
  \<^verbatim>\<open>id_\<close>, an \<^verbatim>\<open>int32_t\<close> (read it with \<open>sint\<close>). The spin lock \<^verbatim>\<open>deltas_lock_\<close>
  has no content in a sequential model: every function below runs as one step.
\<close>

record RowSetMetadata =
  bloom_block :: BlockId
  adhoc_index_block :: BlockId
  column_blocks :: "BlockId list"
  delta_blocks :: "(32 word \<times> BlockId) list"
  tablet_metadata :: nat
  rs_id :: "32 word"

text \<open>The constructor \<^verbatim>\<open>RowSetMetadata(tablet_metadata, id)\<close>: every block field default-constructed.\<close>

definition RowSetMetadata_new :: "nat \<Rightarrow> 32 word \<Rightarrow> RowSetMetadata" where
  "RowSetMetadata_new tm i =
     \<lparr>bloom_block = NullBlockId, adhoc_index_block = NullBlockId, column_blocks = [],
      delta_blocks = [], tablet_metadata = tm, rs_id = i\<rparr>"

text \<open>
  \<^verbatim>\<open>OpenDataBlock\<close>: \<^verbatim>\<open>RETURN_NOT_OK(OpenBlock(block_id, reader)); return (*reader)->Size(size)\<close>.
  The result is the error status, or the reader and the size.
\<close>

definition OpenDataBlock ::
  "FsManager \<Rightarrow> BlockId \<Rightarrow> (Status + RandomAccessFile \<times> 64 word) \<times> FsManager" where
  "OpenDataBlock fs block_id =
     (case OpenBlock fs block_id of
        (Inl st, fs1) \<Rightarrow> (Inl st, fs1)
      | (Inr reader, fs1) \<Rightarrow>
          (case Size fs1 reader of
             (Inl st, fs2) \<Rightarrow> (Inl st, fs2)
           | (Inr sz, fs2) \<Rightarrow> (Inr (reader, sz), fs2)))"

text \<open>
  \<^verbatim>\<open>NewBloomDataBlock\<close>: \<^verbatim>\<open>CHECK(bloom_block_.IsNull())\<close>, then the store creates a
  block and writes its identifier into \<^verbatim>\<open>bloom_block_\<close>. The result is the error
  status or the writer; a failed creation returns no identifier, so the slot is then
  left as it was.
\<close>

definition NewBloomDataBlock ::
  "FsManager \<Rightarrow> RowSetMetadata \<Rightarrow> fatal + (Status + WritableFile) \<times> RowSetMetadata \<times> FsManager" where
  "NewBloomDataBlock fs rs =
     (if \<not> IsNull (bloom_block rs) then Inl CheckFailed
      else (case CreateNewBlock fs of
              (Inl st, fs1) \<Rightarrow> Inr (Inl st, rs, fs1)
            | (Inr (writer, b), fs1) \<Rightarrow> Inr (Inr writer, rs\<lparr>bloom_block := b\<rparr>, fs1)))"

definition OpenBloomDataBlock ::
  "FsManager \<Rightarrow> RowSetMetadata \<Rightarrow> (Status + RandomAccessFile \<times> 64 word) \<times> FsManager" where
  "OpenBloomDataBlock fs rs = OpenDataBlock fs (bloom_block rs)"

definition NewAdHocIndexDataBlock ::
  "FsManager \<Rightarrow> RowSetMetadata \<Rightarrow> fatal + (Status + WritableFile) \<times> RowSetMetadata \<times> FsManager" where
  "NewAdHocIndexDataBlock fs rs =
     (if \<not> IsNull (adhoc_index_block rs) then Inl CheckFailed
      else (case CreateNewBlock fs of
              (Inl st, fs1) \<Rightarrow> Inr (Inl st, rs, fs1)
            | (Inr (writer, b), fs1) \<Rightarrow> Inr (Inr writer, rs\<lparr>adhoc_index_block := b\<rparr>, fs1)))"

definition OpenAdHocIndexDataBlock ::
  "FsManager \<Rightarrow> RowSetMetadata \<Rightarrow> (Status + RandomAccessFile \<times> 64 word) \<times> FsManager" where
  "OpenAdHocIndexDataBlock fs rs = OpenDataBlock fs (adhoc_index_block rs)"

text \<open>
  \<^verbatim>\<open>NewColumnDataBlock\<close>: \<^verbatim>\<open>CHECK_EQ(column_blocks_.size(), col_idx)\<close>, then the
  store creates a block; only on success is its identifier pushed onto
  \<^verbatim>\<open>column_blocks_\<close>. \<^verbatim>\<open>col_idx\<close> is a \<^verbatim>\<open>size_t\<close>, as is the size it is compared
  with, so both are natural numbers here.
\<close>

definition NewColumnDataBlock ::
  "FsManager \<Rightarrow> RowSetMetadata \<Rightarrow> nat \<Rightarrow> fatal + (Status + WritableFile) \<times> RowSetMetadata \<times> FsManager" where
  "NewColumnDataBlock fs rs col_idx =
     (if length (column_blocks rs) \<noteq> col_idx then Inl CheckFailed
      else (case CreateNewBlock fs of
              (Inl st, fs1) \<Rightarrow> Inr (Inl st, rs, fs1)
            | (Inr (writer, block_id), fs1) \<Rightarrow>
                Inr (Inr writer, rs\<lparr>column_blocks := column_blocks rs @ [block_id]\<rparr>, fs1)))"

text \<open>
  \<^verbatim>\<open>OpenColumnDataBlock\<close>: \<^verbatim>\<open>DCHECK_LT(col_idx, column_blocks_.size())\<close>, then the
  subscript. Out of range the debug check ends the program, and without the check the
  subscript is undefined; the model ends the run at the check.
\<close>

definition OpenColumnDataBlock ::
  "FsManager \<Rightarrow> RowSetMetadata \<Rightarrow> nat \<Rightarrow> fatal + (Status + RandomAccessFile \<times> 64 word) \<times> FsManager" where
  "OpenColumnDataBlock fs rs col_idx =
     (if \<not> col_idx < length (column_blocks rs) then Inl CheckFailed
      else Inr (OpenDataBlock fs (column_blocks rs ! col_idx)))"

text \<open>\<^verbatim>\<open>NewDeltaDataBlock\<close>: the store creates a block; the rowset is not touched.\<close>

definition NewDeltaDataBlock ::
  "FsManager \<Rightarrow> RowSetMetadata \<Rightarrow> (Status + WritableFile \<times> BlockId) \<times> RowSetMetadata \<times> FsManager" where
  "NewDeltaDataBlock fs rs = (case CreateNewBlock fs of (r, fs1) \<Rightarrow> (r, rs, fs1))"

text \<open>\<^verbatim>\<open>CommitDeltaDataBlock\<close>: \<^verbatim>\<open>delta_blocks_.push_back(pair(id, block_id)); return Status::OK()\<close>.\<close>

definition CommitDeltaDataBlock ::
  "RowSetMetadata \<Rightarrow> 32 word \<Rightarrow> BlockId \<Rightarrow> Status \<times> RowSetMetadata" where
  "CommitDeltaDataBlock rs i block_id =
     (OK, rs\<lparr>delta_blocks := delta_blocks rs @ [(i, block_id)]\<rparr>)"

definition delta_blocks_count :: "RowSetMetadata \<Rightarrow> nat" where
  "delta_blocks_count rs = length (delta_blocks rs)"

text \<open>
  \<^verbatim>\<open>OpenDeltaDataBlock\<close>: \<^verbatim>\<open>OpenDataBlock(delta_blocks_[index].second, reader, size)\<close>.
  The subscript is not guarded; out of range it is undefined behaviour, which the
  model reports as \<open>OutOfRange\<close>.
\<close>

definition OpenDeltaDataBlock ::
  "FsManager \<Rightarrow> RowSetMetadata \<Rightarrow> nat \<Rightarrow> fatal + (Status + RandomAccessFile \<times> 64 word) \<times> FsManager" where
  "OpenDeltaDataBlock fs rs index =
     (if index < length (delta_blocks rs)
      then Inr (OpenDataBlock fs (snd (delta_blocks rs ! index)))
      else Inl OutOfRange)"

definition HasColumnDataBlockForTests :: "FsManager \<Rightarrow> RowSetMetadata \<Rightarrow> nat \<Rightarrow> bool" where
  "HasColumnDataBlockForTests fs rs idx =
     (length (column_blocks rs) > idx \<and> BlockExists fs (column_blocks rs ! idx))"

definition HasBloomDataBlockForTests :: "FsManager \<Rightarrow> RowSetMetadata \<Rightarrow> bool" where
  "HasBloomDataBlockForTests fs rs = (\<not> IsNull (bloom_block rs) \<and> BlockExists fs (bloom_block rs))"

text \<open>
  A program that drives one rowset: a sequence of calls of its member functions, run
  in order on the store and the object until one of them ends the program.
\<close>

datatype rowset_call =
    CallNewBloom
  | CallNewAdHocIndex
  | CallNewColumn nat
  | CallNewDelta
  | CallCommitDelta "32 word" BlockId
  | CallOpenBloom
  | CallOpenAdHocIndex
  | CallOpenColumn nat
  | CallOpenDelta nat

fun rowset_step :: "FsManager \<times> RowSetMetadata \<Rightarrow> rowset_call \<Rightarrow> fatal + FsManager \<times> RowSetMetadata" where
  "rowset_step (fs, rs) CallNewBloom =
     (case NewBloomDataBlock fs rs of Inl f \<Rightarrow> Inl f | Inr (r, rs1, fs1) \<Rightarrow> Inr (fs1, rs1))"
| "rowset_step (fs, rs) CallNewAdHocIndex =
     (case NewAdHocIndexDataBlock fs rs of Inl f \<Rightarrow> Inl f | Inr (r, rs1, fs1) \<Rightarrow> Inr (fs1, rs1))"
| "rowset_step (fs, rs) (CallNewColumn col_idx) =
     (case NewColumnDataBlock fs rs col_idx of Inl f \<Rightarrow> Inl f | Inr (r, rs1, fs1) \<Rightarrow> Inr (fs1, rs1))"
| "rowset_step (fs, rs) CallNewDelta =
     (case NewDeltaDataBlock fs rs of (r, rs1, fs1) \<Rightarrow> Inr (fs1, rs1))"
| "rowset_step (fs, rs) (CallCommitDelta i block_id) =
     (case CommitDeltaDataBlock rs i block_id of (st, rs1) \<Rightarrow> Inr (fs, rs1))"
| "rowset_step (fs, rs) CallOpenBloom =
     (case OpenBloomDataBlock fs rs of (r, fs1) \<Rightarrow> Inr (fs1, rs))"
| "rowset_step (fs, rs) CallOpenAdHocIndex =
     (case OpenAdHocIndexDataBlock fs rs of (r, fs1) \<Rightarrow> Inr (fs1, rs))"
| "rowset_step (fs, rs) (CallOpenColumn col_idx) =
     (case OpenColumnDataBlock fs rs col_idx of Inl f \<Rightarrow> Inl f | Inr (r, fs1) \<Rightarrow> Inr (fs1, rs))"
| "rowset_step (fs, rs) (CallOpenDelta index) =
     (case OpenDeltaDataBlock fs rs index of Inl f \<Rightarrow> Inl f | Inr (r, fs1) \<Rightarrow> Inr (fs1, rs))"

fun rowset_run :: "FsManager \<times> RowSetMetadata \<Rightarrow> rowset_call list \<Rightarrow> fatal + FsManager \<times> RowSetMetadata" where
  "rowset_run s [] = Inr s"
| "rowset_run s (c # cs) =
     (case rowset_step s c of Inl f \<Rightarrow> Inl f | Inr s1 \<Rightarrow> rowset_run s1 cs)"

text \<open>The pairs that the commits of a program pass, in the order of the calls.\<close>

fun commits :: "rowset_call list \<Rightarrow> (32 word \<times> BlockId) list" where
  "commits [] = []"
| "commits (CallCommitDelta i block_id # cs) = (i, block_id) # commits cs"
| "commits (c # cs) = commits cs"

subsection \<open>TabletMetadata and the object store\<close>

text \<open>
  The fields of \<^verbatim>\<open>class TabletMetadata\<close>. \<open>rowsets\<close> is a vector of shared pointers:
  the addresses of \<^verbatim>\<open>RowSetMetadata\<close> objects, which their creator keeps and mutates
  after registering them. \<open>next_rowset_idx\<close> is an \<^verbatim>\<open>Atomic32\<close>, a 32-bit signed
  integer whose increment wraps. There is one \<^verbatim>\<open>FsManager\<close>, so the field
  \<^verbatim>\<open>fs_manager_\<close> is the store of the world below; the spin lock \<^verbatim>\<open>lock_\<close> has no
  content in a sequential model. \<open>sblk_id\<close> is set by the constructor; the
  specification does not say how it moves, and no function below reads or writes it.
\<close>

record TabletMetadata =
  oid :: string
  start_key :: string
  end_key :: string
  rowsets :: "nat list"
  master_block :: TabletMasterBlockPB
  sblk_id :: "64 word"
  next_rowset_idx :: "32 word"

text \<open>
  The world: the block store and the objects alive, each kind in a list indexed by
  address. Objects are never freed, so an address is valid when it is below the
  length of its list.
\<close>

record World =
  fs_manager :: FsManager
  tablets :: "TabletMetadata list"
  rowset_objs :: "RowSetMetadata list"

definition deref :: "'a list \<Rightarrow> nat \<Rightarrow> fatal + 'a" where
  "deref objs a = (if a < length objs then Inr (objs ! a) else Inl InvalidPointer)"

text \<open>The constructor of \<^verbatim>\<open>TabletMetadata\<close>: no rowsets, \<^verbatim>\<open>sblk_id_(0)\<close>, \<^verbatim>\<open>next_rowset_idx_(0)\<close>.\<close>

definition TabletMetadata_new ::
  "World \<Rightarrow> string \<Rightarrow> TabletMasterBlockPB \<Rightarrow> string \<Rightarrow> string \<Rightarrow> nat \<times> World" where
  "TabletMetadata_new w oid0 mb sk ek =
     (length (tablets w),
      w\<lparr>tablets := tablets w @
         [\<lparr>oid = oid0, start_key = sk, end_key = ek, rowsets = [], master_block = mb,
           sblk_id = 0, next_rowset_idx = 0\<rparr>]\<rparr>)"

text \<open>
  Modelled from the spec: the durable write of a superblock (server/fsmanager.h is not
  among the sources). The write replaces the descriptor anchored at the master block,
  or fails and changes nothing; a read returns the descriptor last written there.
\<close>

definition WriteSuperBlock ::
  "FsManager \<Rightarrow> TabletMasterBlockPB \<Rightarrow> TabletSuperBlockPB \<Rightarrow> Status \<times> FsManager" where
  "WriteSuperBlock fs mb pb =
     (case take_fault fs of
        (True, fs1) \<Rightarrow> (IOError, fs1)
      | (False, fs1) \<Rightarrow> (OK, fs1\<lparr>superblocks := AList.update mb pb (superblocks fs1)\<rparr>))"

text \<open>
  Modelled from the spec: \<^verbatim>\<open>TabletMetadata::ReadSuperBlock\<close> (declared in the header,
  its body is not among the sources), as a read of the store at the master block of the
  tablet: an I/O error, not found when nothing is anchored there, or the descriptor.
\<close>

definition ReadSuperBlock ::
  "FsManager \<Rightarrow> TabletMasterBlockPB \<Rightarrow> (Status + TabletSuperBlockPB) \<times> FsManager" where
  "ReadSuperBlock fs mb =
     (case take_fault fs of
        (True, fs1) \<Rightarrow> (Inl IOError, fs1)
      | (False, fs1) \<Rightarrow>
          (case map_of (superblocks fs1) mb of
             None \<Rightarrow> (Inl NotFound, fs1)
           | Some pb \<Rightarrow> (Inr pb, fs1)))"

text \<open>
  Modelled from the spec: \<^verbatim>\<open>RowSetMetadata::ToProtobuf\<close> (declared in the header,
  its body is not among the sources). The rowset descriptor of an object: an unset
  bloom or index slot is an absent field.
\<close>

definition ToProtobuf :: "RowSetMetadata \<Rightarrow> Status \<times> RowSetDataPB" where
  "ToProtobuf rs =
     (OK,
      \<lparr>pb_id = rs_id rs,
       pb_bloom_block = (if IsNull (bloom_block rs) then None else Some (bloom_block rs)),
       pb_adhoc_index_block =
         (if IsNull (adhoc_index_block rs) then None else Some (adhoc_index_block rs)),
       pb_column_blocks = column_blocks rs,
       pb_delta_blocks = delta_blocks rs\<rparr>)"

text \<open>
  Modelled from the spec: \<^verbatim>\<open>RowSetMetadata::Load\<close> (declared in the header, its body
  is not among the sources). It hydrates the four block-id fields from a decoded
  rowset descriptor; an absent bloom or index field leaves the slot null. A decoded
  descriptor is a value of the record type, so the corruption failure of the
  specification has no input here.
\<close>

definition RowSetMetadata_Load :: "RowSetMetadata \<Rightarrow> RowSetDataPB \<Rightarrow> Status \<times> RowSetMetadata" where
  "RowSetMetadata_Load rs pb =
     (OK,
      rs\<lparr>bloom_block := (case pb_bloom_block pb of None \<Rightarrow> NullBlockId | Some b \<Rightarrow> b),
         adhoc_index_block := (case pb_adhoc_index_block pb of None \<Rightarrow> NullBlockId | Some b \<Rightarrow> b),
         column_blocks := pb_column_blocks pb,
         delta_blocks := pb_delta_blocks pb\<rparr>)"

text \<open>
  Modelled from the spec: the serialisation loop of \<^verbatim>\<open>UpdateAndFlush\<close> (its body is
  not among the sources): the descriptors of the objects at a list of addresses, in
  order, stopping at the first failure.
\<close>

fun rowsets_to_pb :: "RowSetMetadata list \<Rightarrow> nat list \<Rightarrow> fatal + (Status + RowSetDataPB list)" where
  "rowsets_to_pb objs [] = Inr (Inr [])"
| "rowsets_to_pb objs (a # as) =
     (case deref objs a of
        Inl f \<Rightarrow> Inl f
      | Inr rs \<Rightarrow>
          (case ToProtobuf rs of (st, pb) \<Rightarrow>
             if st \<noteq> OK then Inr (Inl st)
             else (case rowsets_to_pb objs as of
                     Inl f \<Rightarrow> Inl f
                   | Inr (Inl st1) \<Rightarrow> Inr (Inl st1)
                   | Inr (Inr pbs) \<Rightarrow> Inr (Inr (pb # pbs)))))"

text \<open>
  Modelled from the spec: the removal loop of \<^verbatim>\<open>UpdateAndFlush\<close> (its body is not
  among the sources): the addresses whose object has an id outside \<open>to_remove\<close>, in
  order. \<open>to_remove\<close> is a set of \<^verbatim>\<open>uint32_t\<close> and the ids are \<^verbatim>\<open>int32_t\<close>; the
  lookup converts the id, which keeps its 32 bits.
\<close>

fun remove_rowsets :: "RowSetMetadata list \<Rightarrow> 32 word set \<Rightarrow> nat list \<Rightarrow> fatal + nat list" where
  "remove_rowsets objs to_remove [] = Inr []"
| "remove_rowsets objs to_remove (a # as) =
     (case deref objs a of
        Inl f \<Rightarrow> Inl f
      | Inr rs \<Rightarrow>
          (case remove_rowsets objs to_remove as of
             Inl f \<Rightarrow> Inl f
           | Inr kept \<Rightarrow> Inr (if rs_id rs \<in> to_remove then kept else a # kept)))"

text \<open>
  Modelled from the spec: \<^verbatim>\<open>TabletMetadata::UpdateAndFlush\<close> (declared in the header,
  its body is not among the sources). It removes every rowset whose id is in
  \<open>to_remove\<close>, appends the rowsets of \<open>to_add\<close>, serialises the resulting collection
  with the tablet id and the key bounds, and writes the descriptor durably; the
  collection in memory changes only when the write has succeeded. \<open>to_remove\<close> is a
  set of \<^verbatim>\<open>uint32_t\<close> and the ids are \<^verbatim>\<open>int32_t\<close>: the same 32 bits.
\<close>

definition UpdateAndFlush ::
  "World \<Rightarrow> nat \<Rightarrow> 32 word set \<Rightarrow> nat list \<Rightarrow> fatal + Status \<times> World" where
  "UpdateAndFlush w t to_remove to_add =
     (case deref (tablets w) t of
        Inl f \<Rightarrow> Inl f
      | Inr tm \<Rightarrow>
          (case remove_rowsets (rowset_objs w) to_remove (rowsets tm) of
             Inl f \<Rightarrow> Inl f
           | Inr kept \<Rightarrow>
               (let new_rowsets = kept @ to_add
                in case rowsets_to_pb (rowset_objs w) new_rowsets of
                     Inl f \<Rightarrow> Inl f
                   | Inr (Inl st) \<Rightarrow> Inr (st, w)
                   | Inr (Inr pbs) \<Rightarrow>
                       (case WriteSuperBlock (fs_manager w) (master_block tm)
                               \<lparr>pb_oid = oid tm, pb_start_key = start_key tm,
                                pb_end_key = end_key tm, pb_rowsets = pbs\<rparr> of
                          (st, fs1) \<Rightarrow>
                            if st \<noteq> OK then Inr (st, w\<lparr>fs_manager := fs1\<rparr>)
                            else Inr (OK, w\<lparr>fs_manager := fs1,
                                             tablets := (tablets w)[t := tm\<lparr>rowsets := new_rowsets\<rparr>]\<rparr>)))))"

text \<open>\<^verbatim>\<open>TabletMetadata::Flush\<close>: \<^verbatim>\<open>UpdateAndFlush(RowSetMetadataIds(), RowSetMetadataVector())\<close>.\<close>

definition Flush :: "World \<Rightarrow> nat \<Rightarrow> fatal + Status \<times> World" where
  "Flush w t = UpdateAndFlush w t {} []"

text \<open>\<^verbatim>\<open>RowSetMetadata::Flush\<close>: \<^verbatim>\<open>tablet_metadata_->Flush()\<close>.\<close>

definition RowSetMetadata_Flush :: "World \<Rightarrow> nat \<Rightarrow> fatal + Status \<times> World" where
  "RowSetMetadata_Flush w r =
     (case deref (rowset_objs w) r of
        Inl f \<Rightarrow> Inl f
      | Inr rs \<Rightarrow> Flush w (tablet_metadata rs))"

text \<open>\<^verbatim>\<open>CommitDeltaDataBlock\<close> called through a pointer to the object.\<close>

definition CommitDeltaDataBlock_at ::
  "World \<Rightarrow> nat \<Rightarrow> 32 word \<Rightarrow> BlockId \<Rightarrow> fatal + Status \<times> World" where
  "CommitDeltaDataBlock_at w r i block_id =
     (case deref (rowset_objs w) r of
        Inl f \<Rightarrow> Inl f
      | Inr rs \<Rightarrow>
          (case CommitDeltaDataBlock rs i block_id of
             (st, rs1) \<Rightarrow> Inr (st, w\<lparr>rowset_objs := (rowset_objs w)[r := rs1]\<rparr>)))"

text \<open>
  Modelled from the spec: \<^verbatim>\<open>TabletMetadata::CreateRowSet\<close> (declared in the header,
  its body is not among the sources). One increment of \<^verbatim>\<open>next_rowset_idx_\<close> yields
  the id; a new \<^verbatim>\<open>RowSetMetadata\<close> bound to this tablet is constructed with it and
  returned, neither registered in \<open>rowsets\<close> nor flushed.
\<close>

definition CreateRowSet :: "World \<Rightarrow> nat \<Rightarrow> fatal + (Status + nat) \<times> World" where
  "CreateRowSet w t =
     (case deref (tablets w) t of
        Inl f \<Rightarrow> Inl f
      | Inr tm \<Rightarrow>
          (let rowset_idx = next_rowset_idx tm
           in Inr (Inr (length (rowset_objs w)),
                   w\<lparr>tablets := (tablets w)[t := tm\<lparr>next_rowset_idx := next_rowset_idx tm + 1\<rparr>],
                     rowset_objs := rowset_objs w @ [RowSetMetadata_new t rowset_idx]\<rparr>)))"

text \<open>
  Modelled from the spec: the hydration loop of \<^verbatim>\<open>TabletMetadata::Load\<close> (its body
  is not among the sources): one new object per rowset descriptor, constructed for
  tablet \<open>t\<close> with the id of the descriptor and loaded from it, stopping at the first
  failure.
\<close>

fun load_rowsets :: "nat \<Rightarrow> RowSetDataPB list \<Rightarrow> Status + RowSetMetadata list" where
  "load_rowsets t [] = Inr []"
| "load_rowsets t (pb # pbs) =
     (case RowSetMetadata_Load (RowSetMetadata_new t (pb_id pb)) pb of (st, rs) \<Rightarrow>
        if st \<noteq> OK then Inl st
        else (case load_rowsets t pbs of
                Inl st1 \<Rightarrow> Inl st1
              | Inr rss \<Rightarrow> Inr (rs # rss)))"

text \<open>
  Modelled from the spec: \<^verbatim>\<open>TabletMetadata::Load\<close> (declared in the header, its body
  is not among the sources). It reads the superblock through the master block and
  reconstructs the rowsets sequence, one new object per rowset descriptor.
\<close>

definition Load :: "World \<Rightarrow> nat \<Rightarrow> fatal + Status \<times> World" where
  "Load w t =
     (case deref (tablets w) t of
        Inl f \<Rightarrow> Inl f
      | Inr tm \<Rightarrow>
          (case ReadSuperBlock (fs_manager w) (master_block tm) of
             (Inl st, fs1) \<Rightarrow> Inr (st, w\<lparr>fs_manager := fs1\<rparr>)
           | (Inr pb, fs1) \<Rightarrow>
               (case load_rowsets t (pb_rowsets pb) of
                  Inl st \<Rightarrow> Inr (st, w\<lparr>fs_manager := fs1\<rparr>)
                | Inr rss \<Rightarrow>
                    (let base = length (rowset_objs w)
                     in Inr (OK, w\<lparr>fs_manager := fs1,
                                    rowset_objs := rowset_objs w @ rss,
                                    tablets := (tablets w)
                                      [t := tm\<lparr>rowsets := [base ..< base + length rss]\<rparr>]\<rparr>)))))"

text \<open>
  A program that drives one tablet: creations of rowsets, updates with flush and bare
  flushes, in any order. The run collects the ids that \<^verbatim>\<open>CreateRowSet\<close> issues, in
  the order of the calls.
\<close>

datatype tablet_call =
    CallCreateRowSet
  | CallUpdateAndFlush "32 word set" "nat list"
  | CallFlush

fun tablet_step :: "nat \<Rightarrow> World \<times> 32 word list \<Rightarrow> tablet_call \<Rightarrow> fatal + World \<times> 32 word list" where
  "tablet_step t (w, ids) CallCreateRowSet =
     (case CreateRowSet w t of
        Inl f \<Rightarrow> Inl f
      | Inr (Inl st, w1) \<Rightarrow> Inr (w1, ids)
      | Inr (Inr r, w1) \<Rightarrow>
          (case deref (rowset_objs w1) r of
             Inl f \<Rightarrow> Inl f
           | Inr rs \<Rightarrow> Inr (w1, ids @ [rs_id rs])))"
| "tablet_step t (w, ids) (CallUpdateAndFlush to_remove to_add) =
     (case UpdateAndFlush w t to_remove to_add of
        Inl f \<Rightarrow> Inl f
      | Inr (st, w1) \<Rightarrow> Inr (w1, ids))"
| "tablet_step t (w, ids) CallFlush =
     (case Flush w t of
        Inl f \<Rightarrow> Inl f
      | Inr (st, w1) \<Rightarrow> Inr (w1, ids))"

fun tablet_run :: "nat \<Rightarrow> World \<times> 32 word list \<Rightarrow> tablet_call list \<Rightarrow> fatal + World \<times> 32 word list" where
  "tablet_run t s [] = Inr s"
| "tablet_run t s (c # cs) =
     (case tablet_step t s c of Inl f \<Rightarrow> Inl f | Inr s1 \<Rightarrow> tablet_run t s1 cs)"

fun creations :: "tablet_call list \<Rightarrow> nat" where
  "creations [] = 0"
| "creations (CallCreateRowSet # cs) = Suc (creations cs)"
| "creations (c # cs) = creations cs"

text \<open>
  The durable superblock is authoritative for tablet \<open>t\<close> when the descriptor stored
  at its master block is the one its current state in memory serialises to.
\<close>

definition superblock_of :: "World \<Rightarrow> nat \<Rightarrow> TabletSuperBlockPB option" where
  "superblock_of w t =
     (case deref (tablets w) t of
        Inl f \<Rightarrow> None
      | Inr tm \<Rightarrow>
          (case rowsets_to_pb (rowset_objs w) (rowsets tm) of
             Inr (Inr pbs) \<Rightarrow>
               Some \<lparr>pb_oid = oid tm, pb_start_key = start_key tm,
                     pb_end_key = end_key tm, pb_rowsets = pbs\<rparr>
           | _ \<Rightarrow> None))"

definition durable_superblock :: "World \<Rightarrow> nat \<Rightarrow> TabletSuperBlockPB option" where
  "durable_superblock w t =
     (case deref (tablets w) t of
        Inl f \<Rightarrow> None
      | Inr tm \<Rightarrow> map_of (superblocks (fs_manager w)) (master_block tm))"

definition authoritative :: "World \<Rightarrow> nat \<Rightarrow> bool" where
  "authoritative w t = (superblock_of w t \<noteq> None \<and> durable_superblock w t = superblock_of w t)"

text \<open>
  A rowset object is registered with a tablet when the tablet it points back to exists
  and holds the address of the object in its \<open>rowsets\<close>.
\<close>

definition registered :: "World \<Rightarrow> nat \<Rightarrow> bool" where
  "registered w r =
     (case deref (rowset_objs w) r of
        Inl f \<Rightarrow> False
      | Inr rs \<Rightarrow>
          (case deref (tablets w) (tablet_metadata rs) of
             Inl f \<Rightarrow> False
           | Inr tm \<Rightarrow> r \<in> set (rowsets tm)))"

subsection \<open>Observations and example states\<close>

text \<open>The four block-id lists of a rowset, as one value.\<close>

definition block_ids ::
  "RowSetMetadata \<Rightarrow> BlockId \<times> BlockId \<times> BlockId list \<times> (32 word \<times> BlockId) list" where
  "block_ids rs = (bloom_block rs, adhoc_index_block rs, column_blocks rs, delta_blocks rs)"

text \<open>The ids collected by a run of a tablet program; none when the program was ended.\<close>

definition issued_ids :: "fatal + World \<times> 32 word list \<Rightarrow> 32 word list" where
  "issued_ids r = (case r of Inl f \<Rightarrow> [] | Inr (w, ids) \<Rightarrow> ids)"

text \<open>A store with no blocks yet, whose next block gets the name 7.\<close>

definition example_store :: FsManager where
  "example_store = \<lparr>next_block = 7, blocks = [], superblocks = [], io_faults = []\<rparr>"

text \<open>A world with one tablet just constructed, with key bounds \<open>a\<close> and \<open>m\<close>.\<close>

definition fresh_world :: World where
  "fresh_world = snd (TabletMetadata_new
     \<lparr>fs_manager = \<lparr>next_block = 0, blocks = [], superblocks = [], io_faults = []\<rparr>,
      tablets = [], rowset_objs = []\<rparr> ''t1'' (TabletMasterBlockPB ''mb'') ''a'' ''m'')"

text \<open>
  A world with one tablet and three rowset objects. The first two are registered and
  flushed (the first with three column blocks and a bloom block, as in the scenario of
  the specification); the third has been created and populated but not yet added.
  The argument is the script of I/O outcomes of the store.
\<close>

definition example_rowsets :: "RowSetMetadata list" where
  "example_rowsets =
     [\<lparr>bloom_block = Block 3, adhoc_index_block = NullBlockId,
       column_blocks = [Block 0, Block 1, Block 2], delta_blocks = [],
       tablet_metadata = 0, rs_id = 0\<rparr>,
      \<lparr>bloom_block = NullBlockId, adhoc_index_block = Block 5,
       column_blocks = [Block 4], delta_blocks = [(1, Block 6)],
       tablet_metadata = 0, rs_id = 1\<rparr>,
      \<lparr>bloom_block = Block 8, adhoc_index_block = NullBlockId,
       column_blocks = [Block 7], delta_blocks = [],
       tablet_metadata = 0, rs_id = 2\<rparr>]"

definition example_world :: "bool list \<Rightarrow> World" where
  "example_world faults =
     \<lparr>fs_manager =
        \<lparr>next_block = 9,
         blocks = [(Block 0, 0), (Block 1, 0), (Block 2, 0), (Block 3, 0), (Block 4, 0),
                   (Block 5, 0), (Block 6, 0), (Block 7, 0), (Block 8, 0)],
         superblocks =
           [(TabletMasterBlockPB ''mb'',
             \<lparr>pb_oid = ''t1'', pb_start_key = ''a'', pb_end_key = ''m'',
              pb_rowsets = map (\<lambda>rs. snd (ToProtobuf rs)) (take 2 example_rowsets)\<rparr>)],
         io_faults = faults\<rparr>,
      tablets =
        [\<lparr>oid = ''t1'', start_key = ''a'', end_key = ''m'', rowsets = [0, 1],
          master_block = TabletMasterBlockPB ''mb'', sblk_id = 0, next_rowset_idx = 3\<rparr>],
      rowset_objs = example_rowsets\<rparr>"

section \<open>Auxiliary facts\<close>

subsection \<open>The delta chain\<close>

lemma rowset_step_delta_blocks:
  "rowset_step (fs, rs) c = Inr (fs1, rs1) \<Longrightarrow> delta_blocks rs1 = delta_blocks rs @ commits [c]"
  by (cases c)
    (auto simp: NewBloomDataBlock_def NewAdHocIndexDataBlock_def NewColumnDataBlock_def
      NewDeltaDataBlock_def CommitDeltaDataBlock_def OpenBloomDataBlock_def
      OpenAdHocIndexDataBlock_def OpenColumnDataBlock_def OpenDeltaDataBlock_def
      split: sum.splits prod.splits if_splits)

lemma commits_Cons: "commits (c # cs) = commits [c] @ commits cs"
  by (cases c) simp_all

lemma rowset_run_delta_blocks:
  "rowset_run (fs, rs) calls = Inr (fs1, rs1) \<Longrightarrow> delta_blocks rs1 = delta_blocks rs @ commits calls"
proof (induction calls arbitrary: fs rs)
  case Nil
  then show ?case by simp
next
  case (Cons c cs)
  from Cons.prems obtain fs2 rs2 where
    step: "rowset_step (fs, rs) c = Inr (fs2, rs2)" and
    rest: "rowset_run (fs2, rs2) cs = Inr (fs1, rs1)"
    by (auto split: sum.splits)
  have "delta_blocks rs1 = delta_blocks rs2 @ commits cs"
    using Cons.IH [OF rest] .
  also have "delta_blocks rs2 = delta_blocks rs @ commits [c]"
    using rowset_step_delta_blocks [OF step] .
  finally show ?case
    using commits_Cons [of c cs] by simp
qed

subsection \<open>Removal, serialisation and the superblock write\<close>

lemma remove_rowsets_Inr:
  "remove_rowsets objs R as = Inr kept \<Longrightarrow>
     kept = filter (\<lambda>a. rs_id (objs ! a) \<notin> R) as \<and> list_all (\<lambda>a. a < length objs) as"
  by (induction as arbitrary: kept) (auto simp: deref_def split: sum.splits if_splits)

lemma remove_rowsets_valid:
  "list_all (\<lambda>a. a < length objs) as \<Longrightarrow>
     remove_rowsets objs R as = Inr (filter (\<lambda>a. rs_id (objs ! a) \<notin> R) as)"
  by (induction as) (auto simp: deref_def)

lemma remove_rowsets_absent:
  "x \<notin> (\<lambda>a. rs_id (objs ! a)) ` set as \<Longrightarrow>
     remove_rowsets objs (insert x R) as = remove_rowsets objs R as"
  by (induction as) (auto simp: deref_def split: sum.splits)

lemma rowsets_to_pb_Inr:
  "rowsets_to_pb objs as = Inr res \<Longrightarrow>
     res = Inr (map (\<lambda>a. snd (ToProtobuf (objs ! a))) as) \<and> list_all (\<lambda>a. a < length objs) as"
  by (induction as arbitrary: res)
    (auto simp: deref_def ToProtobuf_def split: sum.splits if_splits prod.splits)

lemma rowsets_to_pb_valid:
  "list_all (\<lambda>a. a < length objs) as \<Longrightarrow>
     rowsets_to_pb objs as = Inr (Inr (map (\<lambda>a. snd (ToProtobuf (objs ! a))) as))"
  by (induction as) (auto simp: deref_def ToProtobuf_def)

lemma UpdateAndFlush_OK:
  assumes "UpdateAndFlush w t to_remove to_add = Inr (OK, w')"
  shows "t < length (tablets w) \<and>
     rowset_objs w' = rowset_objs w \<and>
     tablets w' = (tablets w)[t := (tablets w ! t)\<lparr>rowsets :=
        filter (\<lambda>a. rs_id (rowset_objs w ! a) \<notin> to_remove) (rowsets (tablets w ! t)) @ to_add\<rparr>] \<and>
     list_all (\<lambda>a. a < length (rowset_objs w)) (rowsets (tablets w ! t) @ to_add) \<and>
     map_of (superblocks (fs_manager w')) (master_block (tablets w ! t)) =
       Some \<lparr>pb_oid = oid (tablets w ! t), pb_start_key = start_key (tablets w ! t),
             pb_end_key = end_key (tablets w ! t),
             pb_rowsets = map (\<lambda>a. snd (ToProtobuf (rowset_objs w ! a)))
               (filter (\<lambda>a. rs_id (rowset_objs w ! a) \<notin> to_remove) (rowsets (tablets w ! t)) @ to_add)\<rparr> \<and>
     io_faults (fs_manager w') = tl (io_faults (fs_manager w))"
proof -
  from assms have t: "t < length (tablets w)"
    by (auto simp: UpdateAndFlush_def deref_def split: if_splits)
  define tm where "tm = tablets w ! t"
  from assms t obtain kept where k: "remove_rowsets (rowset_objs w) to_remove (rowsets tm) = Inr kept"
    by (auto simp: UpdateAndFlush_def deref_def tm_def split: sum.splits)
  note k' = remove_rowsets_Inr [OF k]
  from assms t k obtain res where p: "rowsets_to_pb (rowset_objs w) (kept @ to_add) = Inr res"
    by (auto simp: UpdateAndFlush_def deref_def tm_def Let_def split: sum.splits)
  note p' = rowsets_to_pb_Inr [OF p]
  show ?thesis
    using assms t k p k' p'
    by (auto simp: UpdateAndFlush_def deref_def tm_def Let_def WriteSuperBlock_def take_fault_def
        update_conv' split: sum.splits if_splits prod.splits list.splits bool.splits)
qed

lemma UpdateAndFlush_failed:
  assumes "UpdateAndFlush w t to_remove to_add = Inr (st, w')" "st \<noteq> OK"
  shows "w' = w\<lparr>fs_manager := (fs_manager w)\<lparr>io_faults := tl (io_faults (fs_manager w))\<rparr>\<rparr> \<and> st = IOError
    \<and> io_faults (fs_manager w) \<noteq> [] \<and> hd (io_faults (fs_manager w))"
  using assms
  by (auto simp: UpdateAndFlush_def deref_def Let_def WriteSuperBlock_def take_fault_def
        split: sum.splits if_splits prod.splits list.splits bool.splits dest!: rowsets_to_pb_Inr)

subsection \<open>The rowset id counter\<close>

lemma UpdateAndFlush_counter:
  assumes "UpdateAndFlush w t to_remove to_add = Inr (st, w')"
  shows "t < length (tablets w') \<and> t < length (tablets w) \<and>
         next_rowset_idx (tablets w' ! t) = next_rowset_idx (tablets w ! t)"
proof (cases "st = OK")
  case True
  with assms UpdateAndFlush_OK [of w t to_remove to_add w'] show ?thesis by simp
next
  case False
  from assms have "t < length (tablets w)"
    by (auto simp: UpdateAndFlush_def deref_def split: if_splits)
  with False assms UpdateAndFlush_failed [of w t to_remove to_add st w'] show ?thesis by simp
qed

lemma CreateRowSet_Inr:
  assumes "CreateRowSet w t = Inr (res, w1)"
  shows "t < length (tablets w) \<and> t < length (tablets w1) \<and>
         res = Inr (length (rowset_objs w)) \<and>
         deref (rowset_objs w1) (length (rowset_objs w))
           = Inr (RowSetMetadata_new t (next_rowset_idx (tablets w ! t))) \<and>
         next_rowset_idx (tablets w1 ! t) = next_rowset_idx (tablets w ! t) + 1"
  using assms by (auto simp: CreateRowSet_def deref_def Let_def split: if_splits)

lemma tablet_step_ids:
  assumes "tablet_step t (w, ids) c = Inr (w1, ids1)"
  shows "t < length (tablets w) \<and> t < length (tablets w1) \<and>
         ids1 = ids @ map (\<lambda>k. next_rowset_idx (tablets w ! t) + of_nat k) [0 ..< creations [c]] \<and>
         next_rowset_idx (tablets w1 ! t) = next_rowset_idx (tablets w ! t) + of_nat (creations [c])"
proof (cases c)
  case CallCreateRowSet
  with assms obtain res where cr: "CreateRowSet w t = Inr (res, w1)"
    by (auto split: sum.splits)
  from CreateRowSet_Inr [OF cr] assms CallCreateRowSet cr show ?thesis
    by (auto simp: RowSetMetadata_new_def split: sum.splits)
next
  case (CallUpdateAndFlush R A)
  with assms obtain st where "UpdateAndFlush w t R A = Inr (st, w1)" "ids1 = ids"
    by (auto split: sum.splits)
  with UpdateAndFlush_counter [of w t R A st w1] CallUpdateAndFlush show ?thesis by simp
next
  case CallFlush
  with assms obtain st where "UpdateAndFlush w t {} [] = Inr (st, w1)" "ids1 = ids"
    by (auto simp: Flush_def split: sum.splits)
  with UpdateAndFlush_counter [of w t "{}" "[]" st w1] CallFlush show ?thesis by simp
qed

lemma creations_Cons: "creations (c # cs) = creations [c] + creations cs"
  by (cases c) simp_all

lemma map_counter_append:
  "map (\<lambda>k. (c::32 word) + of_nat k) [0 ..< m] @ map (\<lambda>k. c + of_nat m + of_nat k) [0 ..< n]
     = map (\<lambda>k. c + of_nat k) [0 ..< m + n]"
proof -
  have "map (\<lambda>k. c + of_nat m + of_nat k) [0 ..< n] = map (\<lambda>k. c + of_nat k) (map (\<lambda>k. k + m) [0 ..< n])"
    by (simp add: add.commute add.left_commute add.assoc)
  also have "map (\<lambda>k. k + m) [0 ..< n] = [m ..< m + n]"
    by (simp add: map_add_upt add.commute)
  finally show ?thesis
    by (simp add: upt_add_eq_append [of 0 m n, simplified])
qed

lemma tablet_run_ids:
  "tablet_run t (w, ids) calls = Inr (w', ids') \<Longrightarrow> t < length (tablets w) \<Longrightarrow>
     ids' = ids @ map (\<lambda>k. next_rowset_idx (tablets w ! t) + of_nat k) [0 ..< creations calls] \<and>
     next_rowset_idx (tablets w' ! t) = next_rowset_idx (tablets w ! t) + of_nat (creations calls) \<and>
     t < length (tablets w')"
proof (induction calls arbitrary: w ids)
  case Nil
  then show ?case by simp
next
  case (Cons c cs)
  from Cons.prems obtain w1 ids1 where
    step: "tablet_step t (w, ids) c = Inr (w1, ids1)" and
    rest: "tablet_run t (w1, ids1) cs = Inr (w', ids')"
    by (auto split: sum.splits)
  note s = tablet_step_ids [OF step]
  from s have t1: "t < length (tablets w1)" by simp
  note r = Cons.IH [OF rest t1]
  let ?c = "next_rowset_idx (tablets w ! t)"
  have "ids' = ids @ (map (\<lambda>k. ?c + of_nat k) [0 ..< creations [c]]
                  @ map (\<lambda>k. ?c + of_nat (creations [c]) + of_nat k) [0 ..< creations cs])"
    using r s by simp
  then have "ids' = ids @ map (\<lambda>k. ?c + of_nat k) [0 ..< creations [c] + creations cs]"
    by (simp only: map_counter_append)
  moreover have "next_rowset_idx (tablets w' ! t) = ?c + of_nat (creations [c] + creations cs)"
    using r s by (simp add: add.assoc)
  ultimately show ?case
    using r creations_Cons [of c cs] by simp
qed

lemma signed_take_bit_small: "n < 2 ^ 31 \<Longrightarrow> signed_take_bit 31 (int n) = int n"
proof -
  assume a: "n < 2 ^ 31"
  have "- (2 ^ 31) \<le> int n" by (rule order_trans [of _ 0]) simp_all
  moreover have "int n < 2 ^ 31" using a by (metis of_nat_less_iff of_nat_numeral of_nat_power)
  ultimately show ?thesis by (rule signed_take_bit_int_eq_self)
qed

lemma sint_counter:
  assumes "unat (c::32 word) + k < 2 ^ 31"
  shows "sint (c + of_nat k) = int (unat c + k)"
proof -
  have u: "unat (c + of_nat k) = unat c + k"
    using assms by (simp add: unat_word_ariths unat_of_nat)
  have "uint (c + of_nat k) = int (unat c + k)"
    using u by (metis uint_nat)
  moreover have "sint (c + of_nat k) = signed_take_bit 31 (uint (c + of_nat k))"
    by (simp add: sint_uint)
  ultimately show ?thesis
    using signed_take_bit_small [OF assms] by (simp only:)
qed

lemma sorted_counter:
  assumes "unat (c::32 word) + n \<le> 2 ^ 31"
  shows "sorted_wrt (\<lambda>a b. sint a < sint b) (map (\<lambda>k. c + of_nat k) [0 ..< n])"
proof -
  have "sint (c + of_nat i) < sint (c + of_nat j)" if "i < j" "j < n" for i j
  proof -
    from that assms have "unat c + i < 2 ^ 31" "unat c + j < 2 ^ 31" by simp_all
    then show ?thesis using that by (simp add: sint_counter)
  qed
  then show ?thesis by (simp add: sorted_wrt_iff_nth_less)
qed

lemma tablet_run_creations_total:
  "t < length (tablets w) \<Longrightarrow>
     \<exists>w' ids'. tablet_run t (w, ids) (replicate n CallCreateRowSet) = Inr (w', ids')"
proof (induction n arbitrary: w ids)
  case 0
  then show ?case by simp
next
  case (Suc n)
  obtain w1 ids1 where step: "tablet_step t (w, ids) CallCreateRowSet = Inr (w1, ids1)"
    using Suc.prems by (auto simp: CreateRowSet_def deref_def Let_def)
  from tablet_step_ids [OF step] have "t < length (tablets w1)" by simp
  from Suc.IH [OF this, of ids1] step show ?case by simp
qed

lemma creations_replicate: "creations (replicate n CallCreateRowSet) = n"
  by (induction n) simp_all

lemma issued_ids_replicate:
  assumes "t < length (tablets w)"
  shows "issued_ids (tablet_run t (w, []) (replicate n CallCreateRowSet))
           = map (\<lambda>k. next_rowset_idx (tablets w ! t) + of_nat k) [0 ..< n]"
proof -
  obtain w' ids' where r: "tablet_run t (w, []) (replicate n CallCreateRowSet) = Inr (w', ids')"
    using tablet_run_creations_total [OF assms] by blast
  from tablet_run_ids [OF r assms] show ?thesis
    by (simp add: r issued_ids_def creations_replicate)
qed

subsection \<open>Loading what was flushed\<close>

lemma Load_ToProtobuf:
  "RowSetMetadata_Load (RowSetMetadata_new t2 (pb_id (snd (ToProtobuf rs)))) (snd (ToProtobuf rs))
     = (OK, rs\<lparr>tablet_metadata := t2\<rparr>)"
  by (cases rs) (simp add: RowSetMetadata_Load_def RowSetMetadata_new_def ToProtobuf_def IsNull_def)

lemma load_rowsets_ToProtobuf:
  "load_rowsets t2 (map (\<lambda>rs. snd (ToProtobuf rs)) rss)
     = Inr (map (\<lambda>rs. rs\<lparr>tablet_metadata := t2\<rparr>) rss)"
  by (induction rss) (simp_all add: Load_ToProtobuf)

lemma map_nth_appended:
  "map (\<lambda>a. f ((xs @ ys) ! a)) [length xs ..< length xs + length ys] = map f ys"
  by (rule nth_equalityI) (simp_all add: nth_append)

lemma Load_OK:
  assumes "t2 < length (tablets w)"
    and "fst (take_fault (fs_manager w)) = False"
    and "map_of (superblocks (fs_manager w)) (master_block (tablets w ! t2)) = Some pb"
    and "pb_rowsets pb = map (\<lambda>rs. snd (ToProtobuf rs)) rss"
  shows "\<exists>w3. Load w t2 = Inr (OK, w3) \<and>
           rowset_objs w3 = rowset_objs w @ map (\<lambda>rs. rs\<lparr>tablet_metadata := t2\<rparr>) rss \<and>
           t2 < length (tablets w3) \<and>
           rowsets (tablets w3 ! t2) = [length (rowset_objs w) ..< length (rowset_objs w) + length rss]"
proof -
  obtain fs1 where tf: "take_fault (fs_manager w) = (False, fs1)"
    using assms(2) by (cases "take_fault (fs_manager w)") simp
  then have sb: "superblocks fs1 = superblocks (fs_manager w)"
    by (auto simp: take_fault_def split: list.splits)
  show ?thesis
    using assms(1,3) tf sb load_rowsets_ToProtobuf [of t2 rss]
    by (simp add: Load_def deref_def ReadSuperBlock_def assms(4) Let_def)
qed

lemma UpdateAndFlush_OK_durable:
  assumes "UpdateAndFlush w t to_remove to_add = Inr (OK, w')"
  shows "durable_superblock w' t =
       Some \<lparr>pb_oid = oid (tablets w ! t), pb_start_key = start_key (tablets w ! t),
             pb_end_key = end_key (tablets w ! t),
             pb_rowsets = map (\<lambda>a. snd (ToProtobuf (rowset_objs w ! a)))
               (filter (\<lambda>a. rs_id (rowset_objs w ! a) \<notin> to_remove) (rowsets (tablets w ! t)) @ to_add)\<rparr>"
proof -
  note ok = UpdateAndFlush_OK [OF assms]
  from ok have t: "t < length (tablets w')" "master_block (tablets w' ! t) = master_block (tablets w ! t)"
    by simp_all
  with ok show ?thesis
    by (simp add: durable_superblock_def deref_def)
qed

lemma ToProtobuf_absent:
  "(pb_bloom_block (snd (ToProtobuf rs)) = None) = IsNull (bloom_block rs) \<and>
   (pb_adhoc_index_block (snd (ToProtobuf rs)) = None) = IsNull (adhoc_index_block rs) \<and>
   pb_bloom_block (snd (ToProtobuf rs)) \<noteq> Some NullBlockId \<and>
   pb_adhoc_index_block (snd (ToProtobuf rs)) \<noteq> Some NullBlockId"
  by (simp add: ToProtobuf_def IsNull_def)

lemma Flush_OK_authoritative:
  assumes "Flush w t = Inr (OK, w')"
  shows "authoritative w' t \<and> rowset_objs w' = rowset_objs w \<and>
         rowsets (tablets w' ! t) = rowsets (tablets w ! t)"
proof -
  note ok = UpdateAndFlush_OK [OF assms [unfolded Flush_def]]
  from ok have t: "t < length (tablets w)" and o: "rowset_objs w' = rowset_objs w"
    and tb: "tablets w' = (tablets w)[t := (tablets w ! t)\<lparr>rowsets := rowsets (tablets w ! t)\<rparr>]"
    and v: "list_all (\<lambda>a. a < length (rowset_objs w)) (rowsets (tablets w ! t))"
    by simp_all
  from tb t have tm: "tablets w' ! t = tablets w ! t" "t < length (tablets w')"
    by simp_all
  have s: "superblock_of w' t =
       Some \<lparr>pb_oid = oid (tablets w ! t), pb_start_key = start_key (tablets w ! t),
             pb_end_key = end_key (tablets w ! t),
             pb_rowsets = map (\<lambda>a. snd (ToProtobuf (rowset_objs w ! a))) (rowsets (tablets w ! t))\<rparr>"
    using tm o rowsets_to_pb_valid [OF v]
    by (simp add: superblock_of_def deref_def)
  have d: "durable_superblock w' t = superblock_of w' t"
    using ok tm by (simp add: s durable_superblock_def deref_def)
  from s d o tm show ?thesis by (simp add: authoritative_def)
qed

section \<open>The claims\<close>

text \<open>
  C1. When \<^verbatim>\<open>UpdateAndFlush\<close> fails, that is, when the durable superblock write
  returns an error, the rowsets collection in memory (and every object, and every
  tablet) is what it was before the call, the durable superblocks are the ones stored
  before, and a later \<^verbatim>\<open>Load\<close> of any tablet, under any script of I/O outcomes,
  behaves exactly as it would have on the state before the failed call.
\<close>

theorem UpdateAndFlush_failure_changes_nothing:
  assumes "UpdateAndFlush w t to_remove to_add = Inr (st, w')" and "st \<noteq> OK"
  shows "tablets w' = tablets w \<and> rowset_objs w' = rowset_objs w \<and>
         superblocks (fs_manager w') = superblocks (fs_manager w) \<and>
         (\<forall>t2. durable_superblock w' t2 = durable_superblock w t2) \<and>
         (\<forall>t2 fl. Load (w'\<lparr>fs_manager := (fs_manager w')\<lparr>io_faults := fl\<rparr>\<rparr>) t2
                 = Load (w\<lparr>fs_manager := (fs_manager w)\<lparr>io_faults := fl\<rparr>\<rparr>) t2)"
proof -
  from UpdateAndFlush_failed [OF assms]
  have w': "w' = w\<lparr>fs_manager := (fs_manager w)\<lparr>io_faults := tl (io_faults (fs_manager w))\<rparr>\<rparr>"
    by simp
  show ?thesis
    by (simp add: w' durable_superblock_def split: sum.splits)
qed

theorem UpdateAndFlush_failure_changes_nothing_witness:
  "UpdateAndFlush (example_world [True]) 0 {1} [2] = Inr (IOError, example_world []) \<and>
   rowsets (tablets (example_world []) ! 0) = [0, 1] \<and>
   durable_superblock (example_world []) 0 = durable_superblock (example_world [True]) 0"
proof -
  have run: "UpdateAndFlush (example_world [True]) 0 {1} [2] = Inr (IOError, example_world [])"
    by (simp add: UpdateAndFlush_def example_world_def example_rowsets_def deref_def ToProtobuf_def
        WriteSuperBlock_def take_fault_def IsNull_def)
  have "IOError \<noteq> OK" by simp
  from UpdateAndFlush_failure_changes_nothing [OF run this] run show ?thesis
    by (simp add: example_world_def)
qed

text \<open>
  C2. After \<^verbatim>\<open>UpdateAndFlush\<close> has added the rowset \<open>r\<close> and succeeded, a
  \<^verbatim>\<open>Load\<close> on a tablet just constructed with the same master block succeeds when
  its read meets no I/O fault, and reconstructs, in order, rowsets with the same ids
  and the same bloom, ad-hoc index, column and delta block ids as the flushed ones;
  the last one is the image of \<open>r\<close>, and its bloom and index slots are null exactly
  when those of \<open>r\<close> were. In the durable descriptor of \<open>r\<close> the bloom and index
  fields are absent exactly when the slots were null, and never hold the null
  identifier.
\<close>

theorem flush_then_load_round_trip:
  assumes "UpdateAndFlush w t {} [r] = Inr (OK, w1)"
    and "TabletMetadata_new w1 oid2 (master_block (tablets w ! t)) sk2 ek2 = (t2, w2)"
    and "fst (take_fault (fs_manager w1)) = False"
  shows "(\<exists>pb. durable_superblock w1 t = Some pb \<and> pb_rowsets pb \<noteq> [] \<and>
              (pb_bloom_block (last (pb_rowsets pb)) = None)
                 = IsNull (bloom_block (rowset_objs w ! r)) \<and>
              (pb_adhoc_index_block (last (pb_rowsets pb)) = None)
                 = IsNull (adhoc_index_block (rowset_objs w ! r)) \<and>
              pb_bloom_block (last (pb_rowsets pb)) \<noteq> Some NullBlockId \<and>
              pb_adhoc_index_block (last (pb_rowsets pb)) \<noteq> Some NullBlockId) \<and>
         (\<exists>w3. Load w2 t2 = Inr (OK, w3) \<and>
           map (\<lambda>a. block_ids (rowset_objs w3 ! a)) (rowsets (tablets w3 ! t2))
             = map (\<lambda>a. block_ids (rowset_objs w ! a)) (rowsets (tablets w ! t) @ [r]) \<and>
           map (\<lambda>a. rs_id (rowset_objs w3 ! a)) (rowsets (tablets w3 ! t2))
             = map (\<lambda>a. rs_id (rowset_objs w ! a)) (rowsets (tablets w ! t) @ [r]) \<and>
           block_ids (rowset_objs w3 ! last (rowsets (tablets w3 ! t2)))
             = block_ids (rowset_objs w ! r) \<and>
           IsNull (bloom_block (rowset_objs w3 ! last (rowsets (tablets w3 ! t2))))
             = IsNull (bloom_block (rowset_objs w ! r)) \<and>
           IsNull (adhoc_index_block (rowset_objs w3 ! last (rowsets (tablets w3 ! t2))))
             = IsNull (adhoc_index_block (rowset_objs w ! r)))"
proof -
  note ok = UpdateAndFlush_OK [OF assms(1)]
  have pb: "\<exists>pb. durable_superblock w1 t = Some pb \<and> pb_rowsets pb \<noteq> [] \<and>
              (pb_bloom_block (last (pb_rowsets pb)) = None)
                 = IsNull (bloom_block (rowset_objs w ! r)) \<and>
              (pb_adhoc_index_block (last (pb_rowsets pb)) = None)
                 = IsNull (adhoc_index_block (rowset_objs w ! r)) \<and>
              pb_bloom_block (last (pb_rowsets pb)) \<noteq> Some NullBlockId \<and>
              pb_adhoc_index_block (last (pb_rowsets pb)) \<noteq> Some NullBlockId"
    using UpdateAndFlush_OK_durable [OF assms(1)] ToProtobuf_absent [of "rowset_objs w ! r"]
    by simp
  let ?as = "rowsets (tablets w ! t) @ [r]"
  let ?rss = "map (\<lambda>a. rowset_objs w ! a) ?as"
  from assms(2) have t2: "t2 = length (tablets w1)"
    and w2: "fs_manager w2 = fs_manager w1" "rowset_objs w2 = rowset_objs w1"
      "tablets w2 ! t2 = \<lparr>oid = oid2, start_key = sk2, end_key = ek2, rowsets = [],
          master_block = master_block (tablets w ! t), sblk_id = 0, next_rowset_idx = 0\<rparr>"
      "length (tablets w2) = Suc (length (tablets w1))"
    by (auto simp: TabletMetadata_new_def)
  have v: "t2 < length (tablets w2)" using t2 w2 by simp
  have f: "fst (take_fault (fs_manager w2)) = False" using assms(3) w2 by simp
  have m: "map_of (superblocks (fs_manager w2)) (master_block (tablets w2 ! t2)) =
       Some \<lparr>pb_oid = oid (tablets w ! t), pb_start_key = start_key (tablets w ! t),
             pb_end_key = end_key (tablets w ! t),
             pb_rowsets = map (\<lambda>a. snd (ToProtobuf (rowset_objs w ! a))) ?as\<rparr>"
    using ok w2 by simp
  have p: "pb_rowsets \<lparr>pb_oid = oid (tablets w ! t), pb_start_key = start_key (tablets w ! t),
             pb_end_key = end_key (tablets w ! t),
             pb_rowsets = map (\<lambda>a. snd (ToProtobuf (rowset_objs w ! a))) ?as\<rparr>
           = map (\<lambda>rs. snd (ToProtobuf rs)) ?rss"
    by (simp add: comp_def)
  from Load_OK [OF v f m p] obtain w3 where
    l: "Load w2 t2 = Inr (OK, w3)" and
    o: "rowset_objs w3 = rowset_objs w2 @ map (\<lambda>rs. rs\<lparr>tablet_metadata := t2\<rparr>) ?rss" and
    rs: "rowsets (tablets w3 ! t2) = [length (rowset_objs w2) ..< length (rowset_objs w2) + length ?rss]"
    by blast
  let ?new = "map (\<lambda>rs. rs\<lparr>tablet_metadata := t2\<rparr>) ?rss"
  have rs': "rowsets (tablets w3 ! t2)
      = [length (rowset_objs w2) ..< length (rowset_objs w2) + length ?new]"
    using rs by simp
  have b: "map (\<lambda>a. block_ids (rowset_objs w3 ! a)) (rowsets (tablets w3 ! t2)) = map block_ids ?new"
    unfolding o rs' by (rule map_nth_appended)
  have i: "map (\<lambda>a. rs_id (rowset_objs w3 ! a)) (rowsets (tablets w3 ! t2)) = map rs_id ?new"
    unfolding o rs' by (rule map_nth_appended)
  have b': "map (\<lambda>a. block_ids (rowset_objs w3 ! a)) (rowsets (tablets w3 ! t2))
      = map (\<lambda>a. block_ids (rowset_objs w ! a)) ?as"
    using b by (simp add: comp_def block_ids_def)
  have i': "map (\<lambda>a. rs_id (rowset_objs w3 ! a)) (rowsets (tablets w3 ! t2))
      = map (\<lambda>a. rs_id (rowset_objs w ! a)) ?as"
    using i by (simp add: comp_def)
  have ne: "rowsets (tablets w3 ! t2) \<noteq> []"
    using rs by simp
  have "last (map (\<lambda>a. block_ids (rowset_objs w3 ! a)) (rowsets (tablets w3 ! t2)))
      = last (map (\<lambda>a. block_ids (rowset_objs w ! a)) ?as)"
    using b' by simp
  then have lst: "block_ids (rowset_objs w3 ! last (rowsets (tablets w3 ! t2)))
      = block_ids (rowset_objs w ! r)"
    using ne by (simp add: last_map)
  then have "bloom_block (rowset_objs w3 ! last (rowsets (tablets w3 ! t2))) = bloom_block (rowset_objs w ! r)"
    "adhoc_index_block (rowset_objs w3 ! last (rowsets (tablets w3 ! t2))) = adhoc_index_block (rowset_objs w ! r)"
    by (simp_all add: block_ids_def)
  with l b' i' lst have "\<exists>w3. Load w2 t2 = Inr (OK, w3) \<and>
           map (\<lambda>a. block_ids (rowset_objs w3 ! a)) (rowsets (tablets w3 ! t2))
             = map (\<lambda>a. block_ids (rowset_objs w ! a)) (rowsets (tablets w ! t) @ [r]) \<and>
           map (\<lambda>a. rs_id (rowset_objs w3 ! a)) (rowsets (tablets w3 ! t2))
             = map (\<lambda>a. rs_id (rowset_objs w ! a)) (rowsets (tablets w ! t) @ [r]) \<and>
           block_ids (rowset_objs w3 ! last (rowsets (tablets w3 ! t2)))
             = block_ids (rowset_objs w ! r) \<and>
           IsNull (bloom_block (rowset_objs w3 ! last (rowsets (tablets w3 ! t2))))
             = IsNull (bloom_block (rowset_objs w ! r)) \<and>
           IsNull (adhoc_index_block (rowset_objs w3 ! last (rowsets (tablets w3 ! t2))))
             = IsNull (adhoc_index_block (rowset_objs w ! r))"
    by simp
  with pb show ?thesis by (rule conjI)
qed

theorem flush_then_load_round_trip_witness:
  "\<exists>w1 w3. UpdateAndFlush (example_world []) 0 {} [2] = Inr (OK, w1) \<and>
     Load (snd (TabletMetadata_new w1 ''t1'' (TabletMasterBlockPB ''mb'') ''a'' ''m'')) 1 = Inr (OK, w3) \<and>
     rowsets (tablets w3 ! 1) = [3, 4, 5] \<and>
     block_ids (rowset_objs w3 ! 5) = (Block 8, NullBlockId, [Block 7], []) \<and>
     block_ids (rowset_objs w3 ! 3) = (Block 3, NullBlockId, [Block 0, Block 1, Block 2], []) \<and>
     block_ids (rowset_objs w3 ! 4) = (NullBlockId, Block 5, [Block 4], [(1, Block 6)])"
proof -
  obtain w1 where run: "UpdateAndFlush (example_world []) 0 {} [2] = Inr (OK, w1)"
    by (simp add: UpdateAndFlush_def example_world_def example_rowsets_def deref_def ToProtobuf_def
        WriteSuperBlock_def take_fault_def IsNull_def)
  have mb: "master_block (tablets (example_world []) ! 0) = TabletMasterBlockPB ''mb''"
    by (simp add: example_world_def)
  have w1: "w1 = (example_world [])\<lparr>
      fs_manager := (fs_manager (example_world []))\<lparr>superblocks :=
        [(TabletMasterBlockPB ''mb'',
             \<lparr>pb_oid = ''t1'', pb_start_key = ''a'', pb_end_key = ''m'',
              pb_rowsets = map (\<lambda>rs. snd (ToProtobuf rs)) example_rowsets\<rparr>)]\<rparr>,
      tablets := [(tablets (example_world []) ! 0)\<lparr>rowsets := [0, 1, 2]\<rparr>]\<rparr>"
    using run
    by (simp add: UpdateAndFlush_def example_world_def example_rowsets_def deref_def ToProtobuf_def
        WriteSuperBlock_def take_fault_def IsNull_def)
  have new: "TabletMetadata_new w1 ''t1'' (master_block (tablets (example_world []) ! 0)) ''a'' ''m''
      = (1, snd (TabletMetadata_new w1 ''t1'' (TabletMasterBlockPB ''mb'') ''a'' ''m''))"
    by (simp add: mb TabletMetadata_new_def w1 example_world_def)
  have nf: "fst (take_fault (fs_manager w1)) = False"
    by (simp add: w1 take_fault_def example_world_def)
  from flush_then_load_round_trip [OF run new nf] obtain w3 where
    l: "Load (snd (TabletMetadata_new w1 ''t1'' (TabletMasterBlockPB ''mb'') ''a'' ''m'')) 1 = Inr (OK, w3)"
    by blast
  have w3: "rowsets (tablets w3 ! 1) = [3, 4, 5] \<and>
     block_ids (rowset_objs w3 ! 5) = (Block 8, NullBlockId, [Block 7], []) \<and>
     block_ids (rowset_objs w3 ! 3) = (Block 3, NullBlockId, [Block 0, Block 1, Block 2], []) \<and>
     block_ids (rowset_objs w3 ! 4) = (NullBlockId, Block 5, [Block 4], [(1, Block 6)])"
    using l
    by (auto simp add: w1 Load_def TabletMetadata_new_def example_world_def example_rowsets_def
        deref_def ReadSuperBlock_def take_fault_def ToProtobuf_def RowSetMetadata_Load_def
        RowSetMetadata_new_def IsNull_def Let_def block_ids_def upt_rec)
  from run l w3 show ?thesis by blast
qed

text \<open>
  C3. A successful \<^verbatim>\<open>UpdateAndFlush\<close> leaves the collection equal to the former
  one without the rowsets whose id is in \<open>to_remove\<close>, followed by the rowsets of
  \<open>to_add\<close>, and leaves every object as it was; an id in \<open>to_remove\<close> that no rowset
  of the collection carries does not change what the call does.
\<close>

theorem UpdateAndFlush_success_collection:
  assumes "UpdateAndFlush w t to_remove to_add = Inr (OK, w')"
  shows "rowsets (tablets w' ! t)
           = filter (\<lambda>a. rs_id (rowset_objs w ! a) \<notin> to_remove) (rowsets (tablets w ! t)) @ to_add \<and>
         rowset_objs w' = rowset_objs w \<and>
         (\<forall>x. x \<notin> (\<lambda>a. rs_id (rowset_objs w ! a)) ` set (rowsets (tablets w ! t)) \<longrightarrow>
              UpdateAndFlush w t (insert x to_remove) to_add = UpdateAndFlush w t to_remove to_add)"
proof -
  note ok = UpdateAndFlush_OK [OF assms]
  have "UpdateAndFlush w t (insert x to_remove) to_add = UpdateAndFlush w t to_remove to_add"
    if "x \<notin> (\<lambda>a. rs_id (rowset_objs w ! a)) ` set (rowsets (tablets w ! t))" for x
    using ok remove_rowsets_absent [OF that, of to_remove]
    by (simp add: UpdateAndFlush_def deref_def)
  with ok show ?thesis by simp
qed

theorem UpdateAndFlush_success_collection_witness:
  "\<exists>w'. UpdateAndFlush (example_world []) 0 {1} [2] = Inr (OK, w') \<and>
        rowsets (tablets w' ! 0) = [0, 2] \<and>
        UpdateAndFlush (example_world []) 0 {9, 1} [2] = Inr (OK, w')"
proof -
  obtain w' where run: "UpdateAndFlush (example_world []) 0 {1} [2] = Inr (OK, w')"
    by (simp add: UpdateAndFlush_def example_world_def example_rowsets_def deref_def ToProtobuf_def
        WriteSuperBlock_def take_fault_def IsNull_def)
  have absent: "9 \<notin> (\<lambda>a. rs_id (rowset_objs (example_world []) ! a))
                  ` set (rowsets (tablets (example_world []) ! 0))"
    by (simp add: example_world_def example_rowsets_def)
  have kept: "filter (\<lambda>a. rs_id (rowset_objs (example_world []) ! a) \<notin> {1})
                (rowsets (tablets (example_world []) ! 0)) @ [2] = [0, 2]"
    by (simp add: example_world_def example_rowsets_def)
  note th = UpdateAndFlush_success_collection [OF run]
  from th kept have "rowsets (tablets w' ! 0) = [0, 2]"
    by (simp only:)
  moreover from th absent
  have "UpdateAndFlush (example_world []) 0 {9, 1} [2] = UpdateAndFlush (example_world []) 0 {1} [2]"
    by blast
  ultimately show ?thesis using run by simp
qed

text \<open>
  C4, as stated, fails: \<^verbatim>\<open>next_rowset_idx_\<close> is a 32-bit signed counter. On a
  tablet just constructed, the call number \<open>2^31 + 1\<close> of \<^verbatim>\<open>CreateRowSet\<close> returns
  the least \<^verbatim>\<open>int32_t\<close> after the greatest one, and the call number \<open>2^32 + 1\<close>
  returns the id 0 of the first call again.
\<close>

theorem rowset_ids_wrap_counterexample:
  "length (issued_ids (tablet_run 0 (fresh_world, []) (replicate 4294967297 CallCreateRowSet)))
     = 4294967297 \<and>
   sint (issued_ids (tablet_run 0 (fresh_world, []) (replicate 4294967297 CallCreateRowSet))
           ! 2147483647) = 2147483647 \<and>
   sint (issued_ids (tablet_run 0 (fresh_world, []) (replicate 4294967297 CallCreateRowSet))
           ! 2147483648) = - 2147483648 \<and>
   issued_ids (tablet_run 0 (fresh_world, []) (replicate 4294967297 CallCreateRowSet)) ! 0 = 0 \<and>
   issued_ids (tablet_run 0 (fresh_world, []) (replicate 4294967297 CallCreateRowSet))
           ! 4294967296 = 0"
proof -
  have v: "0 < length (tablets fresh_world)"
    by (simp add: fresh_world_def TabletMetadata_new_def)
  have c: "next_rowset_idx (tablets fresh_world ! 0) = 0"
    by (simp add: fresh_world_def TabletMetadata_new_def)
  have a: "[0 ..< 4294967297] ! 2147483647 = (2147483647::nat)"
    by (subst nth_upt) simp_all
  have b: "[0 ..< 4294967297] ! 2147483648 = (2147483648::nat)"
    by (subst nth_upt) simp_all
  have z: "[0 ..< 4294967297] ! 0 = (0::nat)"
    by (subst nth_upt) simp_all
  have d: "[0 ..< 4294967297] ! 4294967296 = (4294967296::nat)"
    by (subst nth_upt) simp_all
  show ?thesis
    unfolding issued_ids_replicate [OF v] c
    by (simp add: a b z d del: upt_Suc)
qed

text \<open>
  C4 (amended). Within one lifetime of a tablet, for every interleaving of
  \<^verbatim>\<open>CreateRowSet\<close>, \<^verbatim>\<open>UpdateAndFlush\<close> (removals included) and \<^verbatim>\<open>Flush\<close>, as long
  as the counter, read unsigned, plus the number of creations does not exceed \<open>2^31\<close>
  (on a tablet just constructed: for the first \<open>2^31\<close> creations), every creation
  issues an id, the ids issued are strictly increasing as \<^verbatim>\<open>int32_t\<close>, and no id is
  issued twice.
\<close>

theorem rowset_ids_strictly_increasing:
  assumes "tablet_run t (w, []) calls = Inr (w', ids)"
    and "t < length (tablets w)"
    and "unat (next_rowset_idx (tablets w ! t)) + creations calls \<le> 2 ^ 31"
  shows "length ids = creations calls \<and>
         sorted_wrt (\<lambda>a b. sint a < sint b) ids \<and>
         distinct ids"
proof -
  from tablet_run_ids [OF assms(1,2)]
  have ids: "ids = map (\<lambda>k. next_rowset_idx (tablets w ! t) + of_nat k) [0 ..< creations calls]"
    by simp
  have s: "sorted_wrt (\<lambda>a b. sint a < sint b) ids"
    unfolding ids by (rule sorted_counter [OF assms(3)])
  have "distinct ids"
  proof -
    have "sorted_wrt (\<lambda>a b. a \<noteq> b) ids"
      by (rule sorted_wrt_mono_rel [OF _ s]) auto
    then show ?thesis by (simp add: distinct_conv_nth sorted_wrt_iff_nth_less)
       (metis nat_neq_iff)
  qed
  with s ids show ?thesis by simp
qed

theorem rowset_ids_strictly_increasing_witness:
  "tablet_run 0 (fresh_world, [])
     [CallCreateRowSet, CallUpdateAndFlush {} [0], CallCreateRowSet,
      CallUpdateAndFlush {0} [1], CallFlush, CallCreateRowSet] \<noteq> Inl InvalidPointer \<and>
   issued_ids (tablet_run 0 (fresh_world, [])
     [CallCreateRowSet, CallUpdateAndFlush {} [0], CallCreateRowSet,
      CallUpdateAndFlush {0} [1], CallFlush, CallCreateRowSet]) = [0, 1, 2] \<and>
   sorted_wrt (\<lambda>a b. sint a < sint b) [0, 1, 2 :: 32 word] \<and> distinct [0, 1, 2 :: 32 word]"
proof -
  let ?calls = "[CallCreateRowSet, CallUpdateAndFlush {} [0], CallCreateRowSet,
      CallUpdateAndFlush {0} [1], CallFlush, CallCreateRowSet]"
  obtain w' where run: "tablet_run 0 (fresh_world, []) ?calls = Inr (w', [0, 1, 2])"
    by (simp add: fresh_world_def TabletMetadata_new_def CreateRowSet_def UpdateAndFlush_def
        Flush_def deref_def ToProtobuf_def WriteSuperBlock_def take_fault_def IsNull_def
        RowSetMetadata_new_def Let_def)
  have v: "0 < length (tablets fresh_world)"
    by (simp add: fresh_world_def TabletMetadata_new_def)
  have b: "unat (next_rowset_idx (tablets fresh_world ! 0)) + creations ?calls \<le> 2 ^ 31"
    by (simp add: fresh_world_def TabletMetadata_new_def)
  from rowset_ids_strictly_increasing [OF run v b] run show ?thesis
    by (simp add: issued_ids_def)
qed

text \<open>
  C5. \<^verbatim>\<open>NewBloomDataBlock\<close> (and likewise \<^verbatim>\<open>NewAdHocIndexDataBlock\<close>) called when
  its slot is already set ends the program at the \<^verbatim>\<open>CHECK\<close> instead of returning a
  status; called on the unset slot it passes the check and returns, and when the store
  has created a block, the slot holds the identifier the store assigned and nothing
  else of the rowset has changed.
\<close>

theorem bloom_and_index_slots_write_once:
  "(\<not> IsNull (bloom_block rs) \<longrightarrow> NewBloomDataBlock fs rs = Inl CheckFailed) \<and>
   (\<not> IsNull (adhoc_index_block rs) \<longrightarrow> NewAdHocIndexDataBlock fs rs = Inl CheckFailed) \<and>
   (IsNull (bloom_block rs) \<longrightarrow>
      (\<exists>r. NewBloomDataBlock fs rs = Inr r) \<and>
      (\<forall>writer b fs1. CreateNewBlock fs = (Inr (writer, b), fs1) \<longrightarrow>
         NewBloomDataBlock fs rs = Inr (Inr writer, rs\<lparr>bloom_block := b\<rparr>, fs1))) \<and>
   (IsNull (adhoc_index_block rs) \<longrightarrow>
      (\<exists>r. NewAdHocIndexDataBlock fs rs = Inr r) \<and>
      (\<forall>writer b fs1. CreateNewBlock fs = (Inr (writer, b), fs1) \<longrightarrow>
         NewAdHocIndexDataBlock fs rs = Inr (Inr writer, rs\<lparr>adhoc_index_block := b\<rparr>, fs1)))"
  by (auto simp: NewBloomDataBlock_def NewAdHocIndexDataBlock_def split: prod.splits sum.splits)

theorem bloom_and_index_slots_write_once_witness:
  "NewBloomDataBlock example_store (RowSetMetadata_new 0 0)
     = Inr (Inr (WritableFile (Block 7)), (RowSetMetadata_new 0 0)\<lparr>bloom_block := Block 7\<rparr>,
            example_store\<lparr>next_block := 8, blocks := [(Block 7, 0)]\<rparr>) \<and>
   NewBloomDataBlock example_store ((RowSetMetadata_new 0 0)\<lparr>bloom_block := Block 7\<rparr>) = Inl CheckFailed \<and>
   NewAdHocIndexDataBlock example_store (RowSetMetadata_new 0 0)
     = Inr (Inr (WritableFile (Block 7)), (RowSetMetadata_new 0 0)\<lparr>adhoc_index_block := Block 7\<rparr>,
            example_store\<lparr>next_block := 8, blocks := [(Block 7, 0)]\<rparr>) \<and>
   NewAdHocIndexDataBlock example_store ((RowSetMetadata_new 0 0)\<lparr>adhoc_index_block := Block 7\<rparr>) = Inl CheckFailed"
proof -
  have c: "CreateNewBlock example_store = (Inr (WritableFile (Block 7), Block 7), example_store\<lparr>next_block := 8, blocks := [(Block 7, 0)]\<rparr>)"
    by (simp add: CreateNewBlock_def take_fault_def example_store_def Let_def)
  have n: "IsNull (bloom_block (RowSetMetadata_new 0 0))" "IsNull (adhoc_index_block (RowSetMetadata_new 0 0))"
    by (simp_all add: IsNull_def RowSetMetadata_new_def)
  have s: "\<not> IsNull (bloom_block ((RowSetMetadata_new 0 0)\<lparr>bloom_block := Block 7\<rparr>))"
     "\<not> IsNull (adhoc_index_block ((RowSetMetadata_new 0 0)\<lparr>adhoc_index_block := Block 7\<rparr>))"
    by (simp_all add: IsNull_def)
  show ?thesis
    using bloom_and_index_slots_write_once [of "RowSetMetadata_new 0 0" example_store]
      bloom_and_index_slots_write_once [of "(RowSetMetadata_new 0 0)\<lparr>bloom_block := Block 7\<rparr>" example_store]
      bloom_and_index_slots_write_once [of "(RowSetMetadata_new 0 0)\<lparr>adhoc_index_block := Block 7\<rparr>" example_store]
      c n s by blast
qed

text \<open>
  C6. \<^verbatim>\<open>NewColumnDataBlock(col_idx)\<close> ends the program at the \<^verbatim>\<open>CHECK_EQ\<close> unless
  \<open>col_idx\<close> is the number of column blocks recorded so far. When it is and the store
  has created a block, the new identifier is appended: the list has length
  \<open>col_idx + 1\<close>, its first \<open>col_idx\<close> entries are the former list and the new entry
  is at \<open>col_idx\<close>; when the store fails, the status is returned and the rowset is
  unchanged.
\<close>

theorem column_blocks_appended_in_order:
  "(col_idx \<noteq> length (column_blocks rs) \<longrightarrow> NewColumnDataBlock fs rs col_idx = Inl CheckFailed) \<and>
   (col_idx = length (column_blocks rs) \<longrightarrow>
      (\<forall>writer b fs1. CreateNewBlock fs = (Inr (writer, b), fs1) \<longrightarrow>
         NewColumnDataBlock fs rs col_idx
           = Inr (Inr writer, rs\<lparr>column_blocks := column_blocks rs @ [b]\<rparr>, fs1) \<and>
         length (column_blocks rs @ [b]) = col_idx + 1 \<and>
         take col_idx (column_blocks rs @ [b]) = column_blocks rs \<and>
         (column_blocks rs @ [b]) ! col_idx = b) \<and>
      (\<forall>st fs1. CreateNewBlock fs = (Inl st, fs1) \<longrightarrow>
         NewColumnDataBlock fs rs col_idx = Inr (Inl st, rs, fs1)))"
  by (auto simp: NewColumnDataBlock_def)

theorem column_blocks_appended_in_order_witness:
  "NewColumnDataBlock example_store (RowSetMetadata_new 0 0) 0
     = Inr (Inr (WritableFile (Block 7)), (RowSetMetadata_new 0 0)\<lparr>column_blocks := [Block 7]\<rparr>,
            example_store\<lparr>next_block := 8, blocks := [(Block 7, 0)]\<rparr>) \<and>
   NewColumnDataBlock example_store (RowSetMetadata_new 0 0) 2 = Inl CheckFailed"
proof -
  have c: "CreateNewBlock example_store
      = (Inr (WritableFile (Block 7), Block 7), example_store\<lparr>next_block := 8, blocks := [(Block 7, 0)]\<rparr>)"
    by (simp add: CreateNewBlock_def take_fault_def example_store_def Let_def)
  have n: "column_blocks (RowSetMetadata_new 0 0) = []"
    by (simp add: RowSetMetadata_new_def)
  show ?thesis
    using column_blocks_appended_in_order [of 0 "RowSetMetadata_new 0 0" example_store]
      column_blocks_appended_in_order [of 2 "RowSetMetadata_new 0 0" example_store] c n
    by simp
qed

text \<open>
  C7. \<^verbatim>\<open>NewDeltaDataBlock\<close> returns what the store returns and leaves the rowset as
  it is; \<^verbatim>\<open>CommitDeltaDataBlock(delta_id, block_id)\<close> returns OK and appends exactly
  that pair at the end of the delta chain; and after any program of calls on a rowset
  that has run to its end, the delta chain is the former chain followed by the pairs
  of the commits in the order of the calls, so that \<^verbatim>\<open>delta_blocks_count()\<close> has grown
  by the number of commits.
\<close>

theorem delta_chain_is_the_commits:
  "NewDeltaDataBlock fs rs = (fst (CreateNewBlock fs), rs, snd (CreateNewBlock fs)) \<and>
   CommitDeltaDataBlock rs i block_id = (OK, rs\<lparr>delta_blocks := delta_blocks rs @ [(i, block_id)]\<rparr>) \<and>
   (rowset_run (fs, rs) calls = Inr (fs', rs') \<longrightarrow>
      delta_blocks rs' = delta_blocks rs @ commits calls \<and>
      delta_blocks_count rs' = delta_blocks_count rs + length (commits calls))"
  using rowset_run_delta_blocks [of fs rs calls fs' rs']
  by (simp add: NewDeltaDataBlock_def CommitDeltaDataBlock_def delta_blocks_count_def
      split: prod.splits)

theorem delta_chain_is_the_commits_witness:
  "rowset_run (example_store, RowSetMetadata_new 0 0)
     [CallNewDelta, CallCommitDelta 1 (Block 7), CallNewDelta, CallCommitDelta 2 (Block 8)]
     = Inr (example_store\<lparr>next_block := 9, blocks := [(Block 7, 0), (Block 8, 0)]\<rparr>,
            (RowSetMetadata_new 0 0)\<lparr>delta_blocks := [(1, Block 7), (2, Block 8)]\<rparr>) \<and>
   delta_blocks_count ((RowSetMetadata_new 0 0)\<lparr>delta_blocks := [(1, Block 7), (2, Block 8)]\<rparr>) = 2"
proof -
  have run: "rowset_run (example_store, RowSetMetadata_new 0 0)
     [CallNewDelta, CallCommitDelta 1 (Block 7), CallNewDelta, CallCommitDelta 2 (Block 8)]
     = Inr (example_store\<lparr>next_block := 9, blocks := [(Block 7, 0), (Block 8, 0)]\<rparr>,
            (RowSetMetadata_new 0 0)\<lparr>delta_blocks := [(1, Block 7), (2, Block 8)]\<rparr>)"
    by (simp add: NewDeltaDataBlock_def CommitDeltaDataBlock_def CreateNewBlock_def
        take_fault_def example_store_def RowSetMetadata_new_def Let_def)
  show ?thesis
    using run delta_chain_is_the_commits [of example_store "RowSetMetadata_new 0 0" _ _
        "[CallNewDelta, CallCommitDelta 1 (Block 7), CallNewDelta, CallCommitDelta 2 (Block 8)]"
        "example_store\<lparr>next_block := 9, blocks := [(Block 7, 0), (Block 8, 0)]\<rparr>"
        "(RowSetMetadata_new 0 0)\<lparr>delta_blocks := [(1, Block 7), (2, Block 8)]\<rparr>"]
    by (simp add: delta_blocks_count_def RowSetMetadata_new_def)
qed

text \<open>
  C8, as stated, fails: \<^verbatim>\<open>CommitDeltaDataBlock\<close> does not flush. In the example
  world the durable superblock is authoritative; after one commit on the first rowset
  the store is untouched and the superblock no longer describes the delta chain.
\<close>

theorem commit_does_not_flush_counterexample:
  "authoritative (example_world []) 0 \<and>
   CommitDeltaDataBlock_at (example_world []) 0 1 (Block 9)
     = Inr (OK, (example_world [])\<lparr>rowset_objs :=
          (example_rowsets ! 0)\<lparr>delta_blocks := [(1, Block 9)]\<rparr> # tl example_rowsets\<rparr>) \<and>
   \<not> authoritative ((example_world [])\<lparr>rowset_objs :=
          (example_rowsets ! 0)\<lparr>delta_blocks := [(1, Block 9)]\<rparr> # tl example_rowsets\<rparr>) 0"
  by (simp add: authoritative_def superblock_of_def durable_superblock_def
      CommitDeltaDataBlock_at_def CommitDeltaDataBlock_def example_world_def example_rowsets_def
      deref_def ToProtobuf_def IsNull_def)

text \<open>
  C8 (amended). For every rowset already registered with a tablet, a commit of a delta
  block appends the pair to the chain in memory and touches neither the store nor any
  tablet, so every durable superblock is what it was: the append triggers no flush.
  The tablet-level flush is a separate call, \<^verbatim>\<open>RowSetMetadata::Flush\<close>, which is the
  \<^verbatim>\<open>Flush\<close> of the owning tablet. Once that flush has succeeded, the durable
  superblock of the tablet is authoritative about the delta chain: it is the
  serialisation of the tablet's rowsets as they are after the commit, and its
  descriptor of the rowset, at every position where the tablet lists it (there is
  one), carries the id of the rowset and the former chain with the appended pair at
  the end.
\<close>

theorem commit_appends_flush_is_separate:
  assumes "CommitDeltaDataBlock_at w r i block_id = Inr (st, w1)"
    and "registered w r"
  shows "st = OK \<and>
         fs_manager w1 = fs_manager w \<and> tablets w1 = tablets w \<and>
         (\<forall>t. durable_superblock w1 t = durable_superblock w t) \<and>
         delta_blocks (rowset_objs w1 ! r) = delta_blocks (rowset_objs w ! r) @ [(i, block_id)] \<and>
         RowSetMetadata_Flush w1 r = Flush w1 (tablet_metadata (rowset_objs w ! r)) \<and>
         (\<forall>w2. RowSetMetadata_Flush w1 r = Inr (OK, w2) \<longrightarrow>
            authoritative w2 (tablet_metadata (rowset_objs w ! r)) \<and>
            rowset_objs w2 = rowset_objs w1 \<and>
            (\<exists>pb. durable_superblock w2 (tablet_metadata (rowset_objs w ! r)) = Some pb \<and>
               pb_rowsets pb = map (\<lambda>a. snd (ToProtobuf (rowset_objs w1 ! a)))
                  (rowsets (tablets w ! tablet_metadata (rowset_objs w ! r))) \<and>
               (\<exists>k<length (pb_rowsets pb).
                  rowsets (tablets w ! tablet_metadata (rowset_objs w ! r)) ! k = r) \<and>
               (\<forall>k<length (pb_rowsets pb).
                  rowsets (tablets w ! tablet_metadata (rowset_objs w ! r)) ! k = r \<longrightarrow>
                  pb_id (pb_rowsets pb ! k) = rs_id (rowset_objs w ! r) \<and>
                  pb_delta_blocks (pb_rowsets pb ! k)
                    = delta_blocks (rowset_objs w ! r) @ [(i, block_id)])))"
proof -
  let ?t = "tablet_metadata (rowset_objs w ! r)"
  let ?rows = "rowsets (tablets w ! ?t)"
  from assms(1) have r: "r < length (rowset_objs w)"
    by (simp add: CommitDeltaDataBlock_at_def deref_def split: if_splits)
  from assms(2) r have reg: "?t < length (tablets w)" "r \<in> set ?rows"
    by (auto simp: registered_def deref_def split: if_splits)
  define rs1 where
    "rs1 = (rowset_objs w ! r)\<lparr>delta_blocks := delta_blocks (rowset_objs w ! r) @ [(i, block_id)]\<rparr>"
  from r have "CommitDeltaDataBlock_at w r i block_id
      = Inr (OK, w\<lparr>rowset_objs := (rowset_objs w)[r := rs1]\<rparr>)"
    by (simp add: CommitDeltaDataBlock_at_def CommitDeltaDataBlock_def deref_def rs1_def)
  with assms(1) have st: "st = OK" and w1: "w1 = w\<lparr>rowset_objs := (rowset_objs w)[r := rs1]\<rparr>"
    by simp_all
  have fs: "fs_manager w1 = fs_manager w" and tb: "tablets w1 = tablets w"
    by (simp_all add: w1)
  have o: "rowset_objs w1 ! r = rs1" "r < length (rowset_objs w1)"
    using r by (simp_all add: w1)
  have d: "durable_superblock w1 t = durable_superblock w t" for t
    by (simp only: durable_superblock_def fs tb)
  have dl: "delta_blocks (rowset_objs w1 ! r) = delta_blocks (rowset_objs w ! r) @ [(i, block_id)]"
    by (simp add: o rs1_def)
  have tm: "tablet_metadata rs1 = ?t"
    by (simp add: rs1_def)
  have fl: "RowSetMetadata_Flush w1 r = Flush w1 ?t"
    using o tm by (simp add: RowSetMetadata_Flush_def deref_def)
  have desc: "pb_id (snd (ToProtobuf rs1)) = rs_id (rowset_objs w ! r)"
    "pb_delta_blocks (snd (ToProtobuf rs1)) = delta_blocks (rowset_objs w ! r) @ [(i, block_id)]"
    by (simp_all add: ToProtobuf_def rs1_def)
  have au: "authoritative w2 ?t \<and> rowset_objs w2 = rowset_objs w1 \<and>
            (\<exists>pb. durable_superblock w2 ?t = Some pb \<and>
               pb_rowsets pb = map (\<lambda>a. snd (ToProtobuf (rowset_objs w1 ! a))) ?rows \<and>
               (\<exists>k<length (pb_rowsets pb). ?rows ! k = r) \<and>
               (\<forall>k<length (pb_rowsets pb). ?rows ! k = r \<longrightarrow>
                  pb_id (pb_rowsets pb ! k) = rs_id (rowset_objs w ! r) \<and>
                  pb_delta_blocks (pb_rowsets pb ! k)
                    = delta_blocks (rowset_objs w ! r) @ [(i, block_id)]))"
    if "RowSetMetadata_Flush w1 r = Inr (OK, w2)" for w2
  proof -
    from that fl have f: "Flush w1 ?t = Inr (OK, w2)"
      by (simp only:)
    note a = Flush_OK_authoritative [OF f]
    define pb where "pb = \<lparr>pb_oid = oid (tablets w ! ?t), pb_start_key = start_key (tablets w ! ?t),
         pb_end_key = end_key (tablets w ! ?t),
         pb_rowsets = map (\<lambda>a. snd (ToProtobuf (rowset_objs w1 ! a))) ?rows\<rparr>"
    have du: "durable_superblock w2 ?t = Some pb"
      using UpdateAndFlush_OK_durable [OF f [unfolded Flush_def]]
      by (simp add: tb pb_def)
    have rows: "pb_rowsets pb = map (\<lambda>a. snd (ToProtobuf (rowset_objs w1 ! a))) ?rows"
      by (simp add: pb_def)
    from reg(2) obtain k where k: "k < length ?rows" "?rows ! k = r"
      by (auto simp: in_set_conv_nth)
    then have ex: "\<exists>k<length (pb_rowsets pb). ?rows ! k = r"
      by (auto simp: rows)
    have al: "pb_id (pb_rowsets pb ! k) = rs_id (rowset_objs w ! r) \<and>
              pb_delta_blocks (pb_rowsets pb ! k) = delta_blocks (rowset_objs w ! r) @ [(i, block_id)]"
      if "k < length (pb_rowsets pb)" "?rows ! k = r" for k
      using that desc by (simp add: rows o)
    from a du rows ex al show ?thesis by blast
  qed
  from st fs tb d dl fl au show ?thesis by blast
qed

theorem commit_appends_flush_is_separate_witness:
  "registered (example_world []) 0 \<and>
   (\<exists>w1 w2 pb. CommitDeltaDataBlock_at (example_world []) 0 1 (Block 9) = Inr (OK, w1) \<and>
     fs_manager w1 = fs_manager (example_world []) \<and>
     delta_blocks (rowset_objs w1 ! 0) = [(1, Block 9)] \<and>
     RowSetMetadata_Flush w1 0 = Inr (OK, w2) \<and>
     authoritative w2 0 \<and>
     durable_superblock w2 0 = Some pb \<and>
     length (pb_rowsets pb) = 2 \<and>
     pb_id (pb_rowsets pb ! 0) = 0 \<and>
     pb_delta_blocks (pb_rowsets pb ! 0) = [(1, Block 9)])"
proof -
  define w1 where "w1 = (example_world [])\<lparr>rowset_objs :=
          (example_rowsets ! 0)\<lparr>delta_blocks := [(1, Block 9)]\<rparr> # tl example_rowsets\<rparr>"
  have g: "registered (example_world []) 0"
    by (simp add: registered_def deref_def example_world_def example_rowsets_def)
  have c: "CommitDeltaDataBlock_at (example_world []) 0 1 (Block 9) = Inr (OK, w1)"
    by (simp add: w1_def CommitDeltaDataBlock_at_def CommitDeltaDataBlock_def example_world_def
        example_rowsets_def deref_def)
  obtain w2 where f: "RowSetMetadata_Flush w1 0 = Inr (OK, w2)"
    by (simp add: w1_def RowSetMetadata_Flush_def Flush_def UpdateAndFlush_def example_world_def
        example_rowsets_def deref_def ToProtobuf_def WriteSuperBlock_def take_fault_def IsNull_def)
  have tm: "tablet_metadata (rowset_objs (example_world []) ! 0) = 0"
    by (simp add: example_world_def example_rowsets_def)
  have d: "delta_blocks (rowset_objs (example_world []) ! 0) @ [(1, Block 9)] = [(1, Block 9)]"
    by (simp add: example_world_def example_rowsets_def)
  have i: "rs_id (rowset_objs (example_world []) ! 0) = 0"
    by (simp add: example_world_def example_rowsets_def)
  have rows: "rowsets (tablets (example_world []) ! 0) = [0, 1]"
    by (simp add: example_world_def)
  note th = commit_appends_flush_is_separate [OF c g]
  from th f tm have au: "authoritative w2 0" by (simp only:)
  from th d have dl: "delta_blocks (rowset_objs w1 ! 0) = [(1, Block 9)]" by (simp only:)
  from th have fs: "fs_manager w1 = fs_manager (example_world [])" by (simp only:)
  from th f obtain pb where
    du: "durable_superblock w2 (tablet_metadata (rowset_objs (example_world []) ! 0)) = Some pb" and
    pr: "pb_rowsets pb = map (\<lambda>a. snd (ToProtobuf (rowset_objs w1 ! a)))
           (rowsets (tablets (example_world []) ! tablet_metadata (rowset_objs (example_world []) ! 0)))" and
    al: "\<forall>k<length (pb_rowsets pb).
           rowsets (tablets (example_world []) ! tablet_metadata (rowset_objs (example_world []) ! 0)) ! k = 0 \<longrightarrow>
           pb_id (pb_rowsets pb ! k) = rs_id (rowset_objs (example_world []) ! 0) \<and>
           pb_delta_blocks (pb_rowsets pb ! k)
             = delta_blocks (rowset_objs (example_world []) ! 0) @ [(1, Block 9)]"
    by blast
  from pr have len: "length (pb_rowsets pb) = 2"
    by (simp add: tm rows)
  from al [rule_format, of 0] len have
    "pb_id (pb_rowsets pb ! 0) = 0 \<and> pb_delta_blocks (pb_rowsets pb ! 0) = [(1, Block 9)]"
    by (simp add: tm rows i d)
  with g c f au dl fs du len show ?thesis
    by (auto simp: tm)
qed

text \<open>
  C10. For an index below \<^verbatim>\<open>delta_blocks_count()\<close>, \<^verbatim>\<open>OpenDeltaDataBlock(index)\<close> is
  \<^verbatim>\<open>OpenDataBlock\<close> on the block id of the pair at that index of the delta chain, and
  a reader it returns is a reader of that block; on a rowset built from a new one by a
  program of calls, that pair is the one of the commit number \<open>index\<close>. The subscript
  is not guarded: the call is undefined exactly when the index is not below the count.
\<close>

theorem OpenDeltaDataBlock_opens_committed_block:
  assumes "index < delta_blocks_count rs"
  shows "OpenDeltaDataBlock fs rs index = Inr (OpenDataBlock fs (snd (delta_blocks rs ! index))) \<and>
     (\<forall>reader sz fs1. OpenDeltaDataBlock fs rs index = Inr (Inr (reader, sz), fs1) \<longrightarrow>
        reader = RandomAccessFile (snd (delta_blocks rs ! index))) \<and>
     (\<forall>fs0 tm i calls. rowset_run (fs0, RowSetMetadata_new tm i) calls = Inr (fs, rs) \<longrightarrow>
        delta_blocks rs ! index = commits calls ! index) \<and>
     (\<forall>j. (OpenDeltaDataBlock fs rs j = Inl OutOfRange) = (\<not> j < delta_blocks_count rs))"
proof -
  have a: "OpenDeltaDataBlock fs rs index = Inr (OpenDataBlock fs (snd (delta_blocks rs ! index)))"
    using assms by (simp add: OpenDeltaDataBlock_def delta_blocks_count_def)
  have b: "reader = RandomAccessFile (snd (delta_blocks rs ! index))"
    if "OpenDeltaDataBlock fs rs index = Inr (Inr (reader, sz), fs1)" for reader sz fs1
    using that a
    by (auto simp: OpenDataBlock_def OpenBlock_def
        split: prod.splits sum.splits option.splits bool.splits)
  have c: "delta_blocks rs ! index = commits calls ! index"
    if "rowset_run (fs0, RowSetMetadata_new tm i) calls = Inr (fs, rs)" for fs0 tm i calls
    using rowset_run_delta_blocks [OF that] by (simp add: RowSetMetadata_new_def)
  have d: "(OpenDeltaDataBlock fs rs j = Inl OutOfRange) = (\<not> j < delta_blocks_count rs)" for j
    by (simp add: OpenDeltaDataBlock_def delta_blocks_count_def)
  from a b c d show ?thesis by blast
qed

theorem OpenDeltaDataBlock_opens_committed_block_witness:
  "OpenDeltaDataBlock (fs_manager (example_world [])) (example_rowsets ! 1) 0
     = Inr (Inr (RandomAccessFile (Block 6), 0), fs_manager (example_world [])) \<and>
   OpenDeltaDataBlock (fs_manager (example_world [])) (example_rowsets ! 1) 1 = Inl OutOfRange"
proof -
  have n: "0 < delta_blocks_count (example_rowsets ! 1)"
    by (simp add: delta_blocks_count_def example_rowsets_def)
  have n1: "\<not> 1 < delta_blocks_count (example_rowsets ! 1)"
    by (simp add: delta_blocks_count_def example_rowsets_def)
  have o: "OpenDataBlock (fs_manager (example_world [])) (snd (delta_blocks (example_rowsets ! 1) ! 0))
      = (Inr (RandomAccessFile (Block 6), 0), fs_manager (example_world []))"
    by (simp add: OpenDataBlock_def OpenBlock_def Size_def take_fault_def example_world_def
        example_rowsets_def)
  from OpenDeltaDataBlock_opens_committed_block [OF n, of "fs_manager (example_world [])"] o n1
  show ?thesis by simp
qed

end
